theory Spec2Isabelle
  imports Main
begin

section \<open>Values of the program\<close>

text \<open>
  The program is \<^verbatim>\<open>src/champs_league.py\<close>. Every fetch stage reads a payload
  \<^verbatim>\<open>data = response.json()\<close> and walks it with subscripts, \<^verbatim>\<open>.get\<close>, \<^verbatim>\<open>in\<close>, \<^verbatim>\<open>len\<close>
  and \<^verbatim>\<open>for\<close>. The payload is modelled as the Python value that \<^verbatim>\<open>json()\<close> returned:
  \<^verbatim>\<open>None\<close>, a bool, an int, a str, a list or a dict with str keys. A dict is an
  association list in insertion order, read at the first binding of a key. A character
  of the model stands for one character of the Python str. Floating point numbers are
  outside the model.
\<close>

datatype json =
    JNull
  | JBool bool
  | JInt int
  | JStr string
  | JArr "json list"
  | JObj "(string \<times> json) list"

text \<open>
  The exceptions the modelled code can raise. All but \<open>KeyboardInterrupt\<close> are
  subclasses of Python's \<^verbatim>\<open>Exception\<close>; \<open>KeyboardInterrupt\<close> derives from
  \<^verbatim>\<open>BaseException\<close> only, so \<^verbatim>\<open>except Exception\<close> lets it through.
\<close>

datatype exn =
    RequestException
  | JSONDecodeError
  | KeyError
  | TypeError
  | AttributeError
  | IndexError
  | ValueError
  | KeyboardInterrupt

fun isinstance_Exception :: "exn \<Rightarrow> bool" where
  "isinstance_Exception KeyboardInterrupt = False"
| "isinstance_Exception _ = True"

text \<open>What a function of the program returns: \<^verbatim>\<open>None\<close>, a str or a tuple.\<close>

datatype pyval = PNone | PStr string | PTuple "pyval list"

type_synonym row = "json list"

type_synonym csv_file = "string \<times> row list"

subsection \<open>Python operators on payload values\<close>

text \<open>
  A value used as a dictionary key is hashed and compared with \<^verbatim>\<open>==\<close>. Lists and dicts
  are unhashable (\<^verbatim>\<open>TypeError\<close>); \<^verbatim>\<open>True\<close> and \<^verbatim>\<open>False\<close> hash and compare as 1 and 0.
\<close>

datatype pykey = KNone | KInt int | KStr string

fun json_key :: "json \<Rightarrow> pykey option" where
  "json_key JNull = Some KNone"
| "json_key (JBool b) = Some (KInt (if b then 1 else 0))"
| "json_key (JInt i) = Some (KInt i)"
| "json_key (JStr s) = Some (KStr s)"
| "json_key (JArr _) = None"
| "json_key (JObj _) = None"

text \<open>
  \<^verbatim>\<open>a == b\<close> where one operand is known to be hashable (the only comparison of two
  payload values in the program has a right operand that was already used as a
  dictionary key): a list or dict never equals a hashable value, and two hashable values
  are equal exactly when they are the same key.
\<close>

definition py_eq :: "json \<Rightarrow> json \<Rightarrow> bool" where
  "py_eq a b = (json_key a \<noteq> None \<and> json_key a = json_key b)"

text \<open>Truthiness, as tested by \<^verbatim>\<open>if x\<close> and \<^verbatim>\<open>x and y\<close>.\<close>

fun truthy :: "json \<Rightarrow> bool" where
  "truthy JNull = False"
| "truthy (JBool b) = b"
| "truthy (JInt i) = (i \<noteq> 0)"
| "truthy (JStr s) = (s \<noteq> [])"
| "truthy (JArr xs) = (xs \<noteq> [])"
| "truthy (JObj kvs) = (kvs \<noteq> [])"

text \<open>\<^verbatim>\<open>x[k]\<close> with a str \<open>k\<close>.\<close>

fun subscr :: "json \<Rightarrow> string \<Rightarrow> exn + json" where
  "subscr (JObj kvs) k = (case map_of kvs k of None \<Rightarrow> Inl KeyError | Some v \<Rightarrow> Inr v)"
| "subscr _ k = Inl TypeError"

text \<open>\<^verbatim>\<open>x[0]\<close>. The keys of a payload dict are strs, so 0 is never among them.\<close>

fun subscr0 :: "json \<Rightarrow> exn + json" where
  "subscr0 (JArr []) = Inl IndexError"
| "subscr0 (JArr (x # _)) = Inr x"
| "subscr0 (JStr []) = Inl IndexError"
| "subscr0 (JStr (c # _)) = Inr (JStr [c])"
| "subscr0 (JObj _) = Inl KeyError"
| "subscr0 _ = Inl TypeError"

text \<open>\<^verbatim>\<open>x.get(k, d)\<close>: only a dict has the method.\<close>

fun py_get :: "json \<Rightarrow> string \<Rightarrow> json \<Rightarrow> exn + json" where
  "py_get (JObj kvs) k d = (case map_of kvs k of None \<Rightarrow> Inr d | Some v \<Rightarrow> Inr v)"
| "py_get _ k d = Inl AttributeError"

text \<open>\<^verbatim>\<open>k in x\<close> with a str \<open>k\<close>: key of a dict, element of a list, substring of a str.\<close>

fun is_substr :: "string \<Rightarrow> string \<Rightarrow> bool" where
  "is_substr k [] = (k = [])"
| "is_substr k (c # s) = (take (length k) (c # s) = k \<or> is_substr k s)"

fun py_in :: "string \<Rightarrow> json \<Rightarrow> exn + bool" where
  "py_in k (JObj kvs) = Inr (k \<in> set (map fst kvs))"
| "py_in k (JArr xs) = Inr (JStr k \<in> set xs)"
| "py_in k (JStr s) = Inr (is_substr k s)"
| "py_in k _ = Inl TypeError"

text \<open>\<^verbatim>\<open>len(x)\<close>.\<close>

fun py_len :: "json \<Rightarrow> exn + nat" where
  "py_len (JArr xs) = Inr (length xs)"
| "py_len (JStr s) = Inr (length s)"
| "py_len (JObj kvs) = Inr (length (remdups (map fst kvs)))"
| "py_len _ = Inl TypeError"

text \<open>
  The elements \<^verbatim>\<open>for v in x\<close> visits: the elements of a list, the characters of a str,
  the keys of a dict in insertion order.
\<close>

fun first_sightings :: "'a list \<Rightarrow> 'a list" where
  "first_sightings [] = []"
| "first_sightings (x # xs) = x # filter (\<lambda>y. y \<noteq> x) (first_sightings xs)"

fun py_iter :: "json \<Rightarrow> exn + json list" where
  "py_iter (JArr xs) = Inr xs"
| "py_iter (JStr s) = Inr (map (\<lambda>c. JStr [c]) s)"
| "py_iter (JObj kvs) = Inr (map JStr (first_sightings (map fst kvs)))"
| "py_iter _ = Inl TypeError"

text \<open>Sequencing of computations that may raise.\<close>

definition and_then :: "exn + 'a \<Rightarrow> ('a \<Rightarrow> exn + 'b) \<Rightarrow> exn + 'b" where
  "and_then m f = (case m of Inl e \<Rightarrow> Inl e | Inr x \<Rightarrow> f x)"

text \<open>\<^verbatim>\<open>x[k1][k2]...\<close>, and a list of subscripts \<^verbatim>\<open>x[k]\<close> evaluated from left to right.\<close>

fun subscr_path :: "json \<Rightarrow> string list \<Rightarrow> exn + json" where
  "subscr_path x [] = Inr x"
| "subscr_path x (k # ks) = and_then (subscr x k) (\<lambda>v. subscr_path v ks)"

fun subscrs :: "json \<Rightarrow> string list \<Rightarrow> exn + json list" where
  "subscrs x [] = Inr []"
| "subscrs x (k # ks) =
     and_then (subscr x k) (\<lambda>v. and_then (subscrs x ks) (\<lambda>vs. Inr (v # vs)))"

text \<open>
  \<^verbatim>\<open>try: ... except Exception as e: print(...); return absent\<close> around a body
  whose outcome is \<open>r\<close>.
\<close>

definition except_Exception :: "exn + pyval \<Rightarrow> pyval \<Rightarrow> exn + pyval" where
  "except_Exception r absent =
     (case r of
        Inr v \<Rightarrow> Inr v
      | Inl e \<Rightarrow> if isinstance_Exception e then Inr absent else Inl e)"

section \<open>The team registry\<close>

text \<open>
  The globals \<^verbatim>\<open>teams_dict\<close> (a dict from team name to a dict with the entries
  \<^verbatim>\<open>'id'\<close>, \<^verbatim>\<open>'name'\<close>, \<^verbatim>\<open>'api_id'\<close>) and \<^verbatim>\<open>team_id_counter\<close>.
\<close>

record team =
  t_id :: int
  t_name :: json
  t_api_id :: json

record registry =
  teams_dict :: "(pykey \<times> team) list"
  team_id_counter :: int

definition initial_registry :: registry where
  "initial_registry = \<lparr>teams_dict = [], team_id_counter = 1\<rparr>"

definition get_or_create_team_id :: "json \<Rightarrow> json \<Rightarrow> registry \<Rightarrow> exn + (int \<times> registry)" where
  "get_or_create_team_id team_name team_api_id st =
     (case json_key team_name of
        None \<Rightarrow> Inl TypeError
      | Some k \<Rightarrow>
          let st' =
            (if k \<notin> set (map fst (teams_dict st))
             then st\<lparr>teams_dict := teams_dict st @
                       [(k, \<lparr>t_id = team_id_counter st, t_name = team_name,
                             t_api_id = team_api_id\<rparr>)],
                     team_id_counter := team_id_counter st + 1\<rparr>
             else st)
          in (case map_of (teams_dict st') k of
                None \<Rightarrow> Inl KeyError
              | Some t \<Rightarrow> Inr (t_id t, st')))"

definition teams_headers :: row where
  "teams_headers = [JStr ''team_id'', JStr ''team_name'', JStr ''api_id'']"

definition team_row :: "team \<Rightarrow> row" where
  "team_row team_data = [JInt (t_id team_data), t_name team_data, t_api_id team_data]"

text \<open>
  \<^verbatim>\<open>save_teams_table\<close>: the timestamp \<^verbatim>\<open>datetime.now().strftime(...)\<close> is the
  parameter \<open>timestamp\<close>; the result is the file name returned and the file written.
  \<^verbatim>\<open>sorted\<close> is stable, as is \<open>sort_key\<close>.
\<close>

definition save_teams_table :: "string \<Rightarrow> registry \<Rightarrow> string \<times> csv_file" where
  "save_teams_table timestamp st =
     (let filename = ''teams_'' @ timestamp @ ''.csv''
      in (filename,
          (filename,
           teams_headers #
           map (\<lambda>(team_name, team_data). team_row team_data)
               (sort_key (\<lambda>x. t_id (snd x)) (teams_dict st)))))"

text \<open>
  A sequence of calls of \<^verbatim>\<open>get_or_create_team_id\<close>, each with its arguments, run one
  after the other on the registry; the result of every call is recorded, and a call that
  raises leaves the registry as it was.
\<close>

fun resolve_all :: "(json \<times> json) list \<Rightarrow> registry \<Rightarrow> (exn + int) list \<times> registry" where
  "resolve_all [] st = ([], st)"
| "resolve_all ((team_name, team_api_id) # calls) st =
     (case get_or_create_team_id team_name team_api_id st of
        Inl e \<Rightarrow> (let (rs, st') = resolve_all calls st in (Inl e # rs, st'))
      | Inr (i, st1) \<Rightarrow> (let (rs, st') = resolve_all calls st1 in (Inr i # rs, st')))"


section \<open>The fetch stages\<close>

text \<open>
  Each stage takes the outcome of
  \<^verbatim>\<open>response = requests.get(...); response.raise_for_status(); data = response.json()\<close>
  as the parameter \<open>response\<close> (\<open>Inl e\<close> when one of the three raised, \<open>Inr data\<close>
  otherwise), the timestamp as \<open>timestamp\<close> and the registry. It yields what the
  function returns or raises, the registry afterwards and the files on disk afterwards,
  each with the rows written to it. Opening and writing a file are taken to succeed;
  the \<^verbatim>\<open>print\<close> calls are left out.
\<close>

text \<open>
  The call \<^verbatim>\<open>get_or_create_team_id(x[k]['name'], x[k]['id'])\<close>, as made on a
  standings entry, on the two teams of a match and on a scorer.
\<close>

definition resolve_team :: "json \<Rightarrow> string \<Rightarrow> registry \<Rightarrow> (exn + int) \<times> registry" where
  "resolve_team x k st =
     (case and_then (subscr_path x [k, ''name'']) (\<lambda>n.
           and_then (subscr_path x [k, ''id'']) (\<lambda>i. Inr (n, i))) of
        Inl e \<Rightarrow> (Inl e, st)
      | Inr (n, i) \<Rightarrow>
          (case get_or_create_team_id n i st of
             Inl e \<Rightarrow> (Inl e, st)
           | Inr (team_id, st') \<Rightarrow> (Inr team_id, st')))"

subsection \<open>Standings\<close>

definition standings_headers :: row where
  "standings_headers = map JStr [''standing_id'', ''team_id'', ''position'', ''played'',
     ''won'', ''draw'', ''lost'', ''points'', ''goals_for'', ''goals_against'',
     ''goal_difference'']"

text \<open>One iteration of the loop over \<^verbatim>\<open>enumerate(standings, 1)\<close>.\<close>

definition standings_entry :: "int \<Rightarrow> json \<Rightarrow> registry \<Rightarrow> (exn + row) \<times> registry" where
  "standings_entry idx team st =
     (case resolve_team team ''team'' st of
        (Inl e, st') \<Rightarrow> (Inl e, st')
      | (Inr team_id, st') \<Rightarrow>
          (and_then (subscrs team [''position'', ''playedGames'', ''won'', ''draw'', ''lost'',
                       ''points'', ''goalsFor'', ''goalsAgainst'', ''goalDifference''])
             (\<lambda>cells. Inr (JInt idx # JInt team_id # cells)),
           st'))"

fun standings_loop ::
  "int \<Rightarrow> json list \<Rightarrow> registry \<Rightarrow> row list \<Rightarrow> exn option \<times> registry \<times> row list" where
  "standings_loop idx [] st written = (None, st, written)"
| "standings_loop idx (team # rest) st written =
     (case standings_entry idx team st of
        (Inl e, st') \<Rightarrow> (Some e, st', written)
      | (Inr r, st') \<Rightarrow> standings_loop (idx + 1) rest st' (written @ [r]))"

text \<open>The body of the \<^verbatim>\<open>try\<close> block.\<close>

definition standings_try ::
  "exn + json \<Rightarrow> string \<Rightarrow> registry \<Rightarrow> (exn + pyval) \<times> registry \<times> csv_file list" where
  "standings_try response timestamp st =
     (case response of
        Inl e \<Rightarrow> (Inl e, st, [])
      | Inr data \<Rightarrow>
          (case and_then (py_in ''standings'' data) (\<lambda>b.
                  if b then and_then (subscr data ''standings'') (\<lambda>s.
                            and_then (py_len s) (\<lambda>n. Inr (n > 0)))
                  else Inr False) of
             Inl e \<Rightarrow> (Inl e, st, [])
           | Inr False \<Rightarrow> (Inr PNone, st, [])
           | Inr True \<Rightarrow>
               (case and_then (subscr data ''standings'') (\<lambda>s.
                       and_then (subscr0 s) (\<lambda>g. subscr g ''table'')) of
                  Inl e \<Rightarrow> (Inl e, st, [])
                | Inr standings \<Rightarrow>
                    let csv_filename = ''standings_'' @ timestamp @ ''.csv'' in
                    (case py_iter standings of
                       Inl e \<Rightarrow> (Inl e, st, [(csv_filename, [standings_headers])])
                     | Inr teams \<Rightarrow>
                         (case standings_loop 1 teams st [standings_headers] of
                            (Some e, st', written) \<Rightarrow>
                              (Inl e, st', [(csv_filename, written)])
                          | (None, st', written) \<Rightarrow>
                              (Inr (PStr csv_filename), st', [(csv_filename, written)]))))))"

definition fetch_champions_league_standings ::
  "exn + json \<Rightarrow> string \<Rightarrow> registry \<Rightarrow> (exn + pyval) \<times> registry \<times> csv_file list" where
  "fetch_champions_league_standings response timestamp st =
     (case standings_try response timestamp st of
        (r, st', fs) \<Rightarrow> (except_Exception r PNone, st', fs))"

subsection \<open>Matches and goals\<close>

definition matches_headers :: row where
  "matches_headers = map JStr [''match_id'', ''match_day'', ''date'', ''home_team_id'',
     ''away_team_id'', ''home_score'', ''away_score'', ''status'']"

definition goals_headers :: row where
  "goals_headers = map JStr [''goal_id'', ''match_id'', ''team_id'', ''scorer_name'',
     ''minute'', ''score'']"

text \<open>
  \<^verbatim>\<open>goal.get('scorer', {}).get('name', 'Unknown') if goal.get('scorer') else 'Unknown'\<close>:
  the condition is evaluated first.
\<close>

definition scorer_name :: "json \<Rightarrow> exn + json" where
  "scorer_name goal =
     and_then (py_get goal ''scorer'' JNull) (\<lambda>c.
       if truthy c
       then and_then (py_get goal ''scorer'' (JObj [])) (\<lambda>s.
              py_get s ''name'' (JStr ''Unknown''))
       else Inr (JStr ''Unknown''))"

text \<open>\<^verbatim>\<open>goal.get('team', {}).get('name', '')\<close>\<close>

definition goal_team_name :: "json \<Rightarrow> exn + json" where
  "goal_team_name goal =
     and_then (py_get goal ''team'' (JObj [])) (\<lambda>t. py_get t ''name'' (JStr []))"

text \<open>The row appended to \<^verbatim>\<open>goals_data\<close> for one goal (lines 200 to 210).\<close>

definition goal_row :: "json \<Rightarrow> json \<Rightarrow> int \<Rightarrow> int \<Rightarrow> json \<Rightarrow> int \<Rightarrow> exn + row" where
  "goal_row match match_id home_team_id away_team_id goal goal_id =
     and_then (goal_team_name goal) (\<lambda>scorer_team.
     and_then (subscr_path match [''homeTeam'', ''name'']) (\<lambda>home_name.
       let scorer_team_id =
             (if py_eq scorer_team home_name then home_team_id else away_team_id)
       in and_then (scorer_name goal) (\<lambda>scorer.
          and_then (py_get goal ''minute'' (JStr [])) (\<lambda>minute.
          and_then (py_get goal ''score'' (JObj [])) (\<lambda>score.
            Inr [JInt goal_id, match_id, JInt scorer_team_id, scorer, minute, score])))))"

text \<open>\<^verbatim>\<open>for goal in match['goals']\<close>, with the counter \<^verbatim>\<open>goal_id\<close>.\<close>

fun goals_loop ::
  "json \<Rightarrow> json \<Rightarrow> int \<Rightarrow> int \<Rightarrow> json list \<Rightarrow> int \<Rightarrow> row list \<Rightarrow> exn + (int \<times> row list)" where
  "goals_loop match match_id home_team_id away_team_id [] goal_id goals_data =
     Inr (goal_id, goals_data)"
| "goals_loop match match_id home_team_id away_team_id (goal # rest) goal_id goals_data =
     (case goal_row match match_id home_team_id away_team_id goal goal_id of
        Inl e \<Rightarrow> Inl e
      | Inr r \<Rightarrow>
          goals_loop match match_id home_team_id away_team_id rest (goal_id + 1)
            (goals_data @ [r]))"

text \<open>
  The row appended to \<^verbatim>\<open>matches_data\<close> (lines 182 to 195), with \<^verbatim>\<open>match_id\<close>.
  The empty str \<^verbatim>\<open>''\<close> is \<open>JStr []\<close>.
\<close>

definition match_row :: "json \<Rightarrow> int \<Rightarrow> int \<Rightarrow> exn + (json \<times> row)" where
  "match_row match home_team_id away_team_id =
     and_then (subscr match ''id'') (\<lambda>match_id.
     and_then (subscr_path match [''score'', ''fullTime'', ''home'']) (\<lambda>home_score.
     and_then (subscr_path match [''score'', ''fullTime'', ''away'']) (\<lambda>away_score.
     and_then (py_get match ''matchday'' (JStr ''N/A'')) (\<lambda>match_day.
     and_then (subscr match ''utcDate'') (\<lambda>date.
     and_then (subscr match ''status'') (\<lambda>status.
       Inr (match_id,
            [match_id, match_day, date, JInt home_team_id, JInt away_team_id,
             (if home_score \<noteq> JNull then home_score else JStr []),
             (if away_score \<noteq> JNull then away_score else JStr []),
             status])))))))"

text \<open>
  \<^verbatim>\<open>if 'goals' in match and match['goals']: for goal in match['goals']: ...\<close>;
  the result is the list of goals the loop visits, empty when the condition is false.
\<close>

definition match_goals :: "json \<Rightarrow> exn + json list" where
  "match_goals match =
     and_then (py_in ''goals'' match) (\<lambda>b.
       if b
       then and_then (subscr match ''goals'') (\<lambda>g.
              if truthy g then and_then (subscr match ''goals'') py_iter else Inr [])
       else Inr [])"

text \<open>One iteration of \<^verbatim>\<open>for match in matches\<close> (lines 173 to 211).\<close>

definition match_step ::
  "json \<Rightarrow> registry \<Rightarrow> int \<Rightarrow> row list \<Rightarrow> row list \<Rightarrow>
   (exn + (int \<times> row list \<times> row list)) \<times> registry" where
  "match_step match st goal_id matches_data goals_data =
     (case resolve_team match ''homeTeam'' st of
        (Inl e, st1) \<Rightarrow> (Inl e, st1)
      | (Inr home_team_id, st1) \<Rightarrow>
          (case resolve_team match ''awayTeam'' st1 of
             (Inl e, st2) \<Rightarrow> (Inl e, st2)
           | (Inr away_team_id, st2) \<Rightarrow>
               (and_then (match_row match home_team_id away_team_id) (\<lambda>(match_id, r).
                and_then (match_goals match) (\<lambda>goals.
                and_then (goals_loop match match_id home_team_id away_team_id goals
                            goal_id goals_data) (\<lambda>(goal_id', goals_data').
                  Inr (goal_id', matches_data @ [r], goals_data')))),
                st2)))"

fun matches_loop ::
  "json list \<Rightarrow> registry \<Rightarrow> int \<Rightarrow> row list \<Rightarrow> row list \<Rightarrow>
   (exn + (int \<times> row list \<times> row list)) \<times> registry" where
  "matches_loop [] st goal_id matches_data goals_data =
     (Inr (goal_id, matches_data, goals_data), st)"
| "matches_loop (match # rest) st goal_id matches_data goals_data =
     (case match_step match st goal_id matches_data goals_data of
        (Inl e, st') \<Rightarrow> (Inl e, st')
      | (Inr (goal_id', matches_data', goals_data'), st') \<Rightarrow>
          matches_loop rest st' goal_id' matches_data' goals_data')"

text \<open>
  The body of the \<^verbatim>\<open>try\<close> block. The \<^verbatim>\<open>if 'matches' in data\<close> has no \<^verbatim>\<open>else\<close>:
  when the condition is false the function reaches its end and returns \<^verbatim>\<open>None\<close>.
\<close>

definition matches_try ::
  "exn + json \<Rightarrow> string \<Rightarrow> registry \<Rightarrow> (exn + pyval) \<times> registry \<times> csv_file list" where
  "matches_try response timestamp st =
     (case response of
        Inl e \<Rightarrow> (Inl e, st, [])
      | Inr data \<Rightarrow>
          (case py_in ''matches'' data of
             Inl e \<Rightarrow> (Inl e, st, [])
           | Inr False \<Rightarrow> (Inr PNone, st, [])
           | Inr True \<Rightarrow>
               (case and_then (subscr data ''matches'') py_iter of
                  Inl e \<Rightarrow> (Inl e, st, [])
                | Inr matches \<Rightarrow>
                    let matches_filename = ''matches_'' @ timestamp @ ''.csv'';
                        goals_filename = ''goals_'' @ timestamp @ ''.csv'' in
                    (case matches_loop matches st 1 [] [] of
                       (Inl e, st') \<Rightarrow> (Inl e, st', [])
                     | (Inr (goal_id, matches_data, goals_data), st') \<Rightarrow>
                         (Inr (PTuple [PStr matches_filename, PStr goals_filename]), st',
                          [(matches_filename, matches_headers # matches_data),
                           (goals_filename, goals_headers # goals_data)])))))"

definition fetch_champions_league_matches ::
  "exn + json \<Rightarrow> string \<Rightarrow> registry \<Rightarrow> (exn + pyval) \<times> registry \<times> csv_file list" where
  "fetch_champions_league_matches response timestamp st =
     (case matches_try response timestamp st of
        (r, st', fs) \<Rightarrow> (except_Exception r (PTuple [PNone, PNone]), st', fs))"

subsection \<open>Top scorers\<close>

definition scorers_headers :: row where
  "scorers_headers = map JStr [''scorer_id'', ''player_name'', ''team_id'', ''goals'',
     ''assists'', ''penalties'']"

definition scorers_entry :: "int \<Rightarrow> json \<Rightarrow> registry \<Rightarrow> (exn + row) \<times> registry" where
  "scorers_entry idx scorer st =
     (case resolve_team scorer ''team'' st of
        (Inl e, st') \<Rightarrow> (Inl e, st')
      | (Inr team_id, st') \<Rightarrow>
          (and_then (subscr_path scorer [''player'', ''name'']) (\<lambda>player_name.
           and_then (py_get scorer ''goals'' (JInt 0)) (\<lambda>goals.
           and_then (py_get scorer ''assists'' (JInt 0)) (\<lambda>assists.
           and_then (py_get scorer ''penalties'' (JInt 0)) (\<lambda>penalties.
             Inr [JInt idx, player_name, JInt team_id, goals, assists, penalties])))),
           st'))"

fun scorers_loop ::
  "int \<Rightarrow> json list \<Rightarrow> registry \<Rightarrow> row list \<Rightarrow> exn option \<times> registry \<times> row list" where
  "scorers_loop idx [] st written = (None, st, written)"
| "scorers_loop idx (scorer # rest) st written =
     (case scorers_entry idx scorer st of
        (Inl e, st') \<Rightarrow> (Some e, st', written)
      | (Inr r, st') \<Rightarrow> scorers_loop (idx + 1) rest st' (written @ [r]))"

definition scorers_try ::
  "exn + json \<Rightarrow> string \<Rightarrow> registry \<Rightarrow> (exn + pyval) \<times> registry \<times> csv_file list" where
  "scorers_try response timestamp st =
     (case response of
        Inl e \<Rightarrow> (Inl e, st, [])
      | Inr data \<Rightarrow>
          (case py_in ''scorers'' data of
             Inl e \<Rightarrow> (Inl e, st, [])
           | Inr False \<Rightarrow> (Inr PNone, st, [])
           | Inr True \<Rightarrow>
               (case subscr data ''scorers'' of
                  Inl e \<Rightarrow> (Inl e, st, [])
                | Inr scorers \<Rightarrow>
                    let filename = ''scorers_'' @ timestamp @ ''.csv'' in
                    (case py_iter scorers of
                       Inl e \<Rightarrow> (Inl e, st, [(filename, [scorers_headers])])
                     | Inr entries \<Rightarrow>
                         (case scorers_loop 1 entries st [scorers_headers] of
                            (Some e, st', written) \<Rightarrow> (Inl e, st', [(filename, written)])
                          | (None, st', written) \<Rightarrow>
                              (Inr (PStr filename), st', [(filename, written)]))))))"

definition fetch_top_scorers ::
  "exn + json \<Rightarrow> string \<Rightarrow> registry \<Rightarrow> (exn + pyval) \<times> registry \<times> csv_file list" where
  "fetch_top_scorers response timestamp st =
     (case scorers_try response timestamp st of
        (r, st', fs) \<Rightarrow> (except_Exception r PNone, st', fs))"

subsection \<open>The caller\<close>

text \<open>
  \<^verbatim>\<open>matches_table, goals_table = fetch_champions_league_matches()\<close> in the main block.
  Unpacking into two names needs an iterable of exactly two elements: \<^verbatim>\<open>None\<close> raises
  \<^verbatim>\<open>TypeError\<close>, a tuple or str of another length raises \<^verbatim>\<open>ValueError\<close>.
\<close>

fun unpack2 :: "pyval \<Rightarrow> exn + (pyval \<times> pyval)" where
  "unpack2 PNone = Inl TypeError"
| "unpack2 (PTuple [a, b]) = Inr (a, b)"
| "unpack2 (PStr [c, d]) = Inr (PStr [c], PStr [d])"
| "unpack2 _ = Inl ValueError"

text \<open>
  The main block after the check of \<^verbatim>\<open>API_KEY\<close>, up to the call of
  \<^verbatim>\<open>save_teams_table\<close>: the three stages in order on one registry, each with its
  response and timestamp; an exception that leaves a stage or the unpacking ends the
  program.
\<close>

definition main_block ::
  "(exn + json) \<times> string \<Rightarrow> (exn + json) \<times> string \<Rightarrow> (exn + json) \<times> string \<Rightarrow> string \<Rightarrow>
   registry \<Rightarrow> (exn + pyval list) \<times> registry \<times> csv_file list" where
  "main_block standings_in matches_in scorers_in teams_timestamp st =
     (case fetch_champions_league_standings (fst standings_in) (snd standings_in) st of
        (Inl e, st1, fs1) \<Rightarrow> (Inl e, st1, fs1)
      | (Inr standings_table, st1, fs1) \<Rightarrow>
          (case fetch_champions_league_matches (fst matches_in) (snd matches_in) st1 of
             (Inl e, st2, fs2) \<Rightarrow> (Inl e, st2, fs1 @ fs2)
           | (Inr both, st2, fs2) \<Rightarrow>
               (case unpack2 both of
                  Inl e \<Rightarrow> (Inl e, st2, fs1 @ fs2)
                | Inr (matches_table, goals_table) \<Rightarrow>
                    (case fetch_top_scorers (fst scorers_in) (snd scorers_in) st2 of
                       (Inl e, st3, fs3) \<Rightarrow> (Inl e, st3, fs1 @ fs2 @ fs3)
                     | (Inr scorers_table, st3, fs3) \<Rightarrow>
                         (case save_teams_table teams_timestamp st3 of
                            (teams_table, f) \<Rightarrow>
                              (Inr [PStr teams_table, matches_table, goals_table,
                                    standings_table, scorers_table],
                               st3, fs1 @ fs2 @ fs3 @ [f]))))))"

section \<open>Reference functions for the registry\<close>

text \<open>
  The calls of a sequence that are the first sighting of their name, in order, each
  with the key of the name and the two arguments of the call; calls with an unhashable
  name are no sighting.
\<close>

fun first_calls :: "(json \<times> json) list \<Rightarrow> (pykey \<times> json \<times> json) list" where
  "first_calls [] = []"
| "first_calls ((n, a) # cs) =
     (case json_key n of
        None \<Rightarrow> first_calls cs
      | Some k \<Rightarrow> (k, n, a) # filter (\<lambda>c. fst c \<noteq> k) (first_calls cs))"

text \<open>The position of the first occurrence of an element.\<close>

fun index_of :: "'a \<Rightarrow> 'a list \<Rightarrow> nat" where
  "index_of x [] = 0"
| "index_of x (y # ys) = (if x = y then 0 else Suc (index_of x ys))"

text \<open>The registry entry of the sighting at position \<open>i\<close>, counted from 0.\<close>

definition new_team :: "nat \<times> pykey \<times> json \<times> json \<Rightarrow> pykey \<times> team" where
  "new_team = (\<lambda>(i, k, n, a). (k, \<lparr>t_id = int i + 1, t_name = n, t_api_id = a\<rparr>))"

text \<open>The id the registry holds for a name.\<close>

definition stored_id :: "registry \<Rightarrow> json \<Rightarrow> exn + int" where
  "stored_id st n =
     (case json_key n of
        None \<Rightarrow> Inl TypeError
      | Some k \<Rightarrow> (case map_of (teams_dict st) k of None \<Rightarrow> Inl KeyError | Some t \<Rightarrow> Inr (t_id t)))"

section \<open>Reference functions for the goals table\<close>

text \<open>
  The state of the counter \<^verbatim>\<open>goal_id\<close> and of \<^verbatim>\<open>goals_data\<close> between two goals: the rows
  so far carry the ids 1, 2, ... in order and the counter is the next id.
\<close>

definition goal_ids :: "int \<Rightarrow> row list \<Rightarrow> bool" where
  "goal_ids goal_id goals_data \<longleftrightarrow>
     goal_id = int (length goals_data) + 1 \<and>
     map hd goals_data = map (\<lambda>i. JInt (int i)) [1..<Suc (length goals_data)]"

text \<open>The number of goals the loop over \<^verbatim>\<open>match['goals']\<close> visits for a match.\<close>

definition goal_count :: "json \<Rightarrow> nat" where
  "goal_count match = (case match_goals match of Inl e \<Rightarrow> 0 | Inr goals \<Rightarrow> length goals)"

section \<open>Reference predicates for the attribution of goals\<close>

text \<open>
  The team name of a goal object \<open>g\<close>, read from the payload: the \<^verbatim>\<open>name\<close> entry of its
  \<^verbatim>\<open>team\<close> object, or the empty str when the goal has no \<^verbatim>\<open>team\<close> entry or the team object
  has no \<^verbatim>\<open>name\<close> entry.
\<close>

definition goal_names :: "(string \<times> json) list \<Rightarrow> json \<Rightarrow> bool" where
  "goal_names g nm \<longleftrightarrow>
     (\<exists>t. map_of g ''team'' = Some (JObj t) \<and> map_of t ''name'' = Some nm) \<or>
     (nm = JStr [] \<and>
      (map_of g ''team'' = None \<or>
       (\<exists>t. map_of g ''team'' = Some (JObj t) \<and> map_of t ''name'' = None)))"

text \<open>
  The rows \<open>rows\<close> attribute the goals of \<open>match\<close> by the rule of the home-team name,
  with the ids the registry \<open>st\<close> holds for the two team names: stated for a match whose
  two team names are strs and whose \<^verbatim>\<open>goals\<close> entry is a list.
\<close>

definition goals_attributed :: "registry \<Rightarrow> json \<Rightarrow> row list \<Rightarrow> bool" where
  "goals_attributed st match rows \<longleftrightarrow>
     (\<forall>m ht hname at aname goals.
        match = JObj m \<and>
        map_of m ''homeTeam'' = Some (JObj ht) \<and> map_of ht ''name'' = Some (JStr hname) \<and>
        map_of m ''awayTeam'' = Some (JObj at) \<and> map_of at ''name'' = Some (JStr aname) \<and>
        map_of m ''goals'' = Some (JArr goals) \<longrightarrow>
        (\<exists>th ta.
           map_of (teams_dict st) (KStr hname) = Some th \<and>
           map_of (teams_dict st) (KStr aname) = Some ta \<and>
           length rows = length goals \<and>
           (\<forall>i<length goals. \<exists>g.
              goals ! i = JObj g \<and>
              (map_of g ''team'' = None \<or> (\<exists>t. map_of g ''team'' = Some (JObj t))) \<and>
              (\<forall>nm. goal_names g nm \<longrightarrow>
                 rows ! i ! 2 = JInt (if nm = JStr hname then t_id th else t_id ta)))))"

section \<open>Example payloads\<close>

text \<open>
  A played match with two goals: the first by the home team, with a scorer object whose
  name is \<^verbatim>\<open>null\<close>; the second with a team name that is neither the home nor the away
  team's, and with \<^verbatim>\<open>"scorer": null\<close>. Its \<^verbatim>\<open>matchday\<close> is \<^verbatim>\<open>null\<close>.
\<close>

definition example_played_match :: json where
  "example_played_match =
     JObj [(''id'', JInt 100), (''utcDate'', JStr ''2026-01-01''),
           (''status'', JStr ''FINISHED''), (''matchday'', JNull),
           (''homeTeam'', JObj [(''id'', JInt 678), (''name'', JStr ''Ajax'')]),
           (''awayTeam'', JObj [(''id'', JInt 503), (''name'', JStr ''Porto'')]),
           (''score'', JObj [(''fullTime'', JObj [(''home'', JInt 1), (''away'', JInt 1)])]),
           (''goals'', JArr [
              JObj [(''minute'', JInt 7), (''team'', JObj [(''name'', JStr ''Ajax'')]),
                    (''scorer'', JObj [(''id'', JInt 9), (''name'', JNull)])],
              JObj [(''minute'', JInt 80), (''team'', JObj [(''name'', JStr ''FC Porto'')]),
                    (''scorer'', JNull)]])]"

text \<open>A match not yet played: no \<^verbatim>\<open>matchday\<close> key, no \<^verbatim>\<open>goals\<close> key, \<^verbatim>\<open>null\<close> scores.\<close>

definition example_timed_match :: json where
  "example_timed_match =
     JObj [(''id'', JInt 101), (''utcDate'', JStr ''2026-01-02''), (''status'', JStr ''TIMED''),
           (''homeTeam'', JObj [(''id'', JInt 503), (''name'', JStr ''Porto'')]),
           (''awayTeam'', JObj [(''id'', JInt 108), (''name'', JStr ''Inter'')]),
           (''score'', JObj [(''fullTime'', JObj [(''home'', JNull), (''away'', JNull)])])]"

definition example_matches :: json where
  "example_matches =
     JObj [(''matches'', JArr [example_played_match, example_timed_match,
                              example_played_match])]"

text \<open>
  A match whose home and away team carry the same name, with one goal of a third name.
\<close>

definition example_same_name_matches :: json where
  "example_same_name_matches =
     JObj [(''matches'', JArr [
       JObj [(''id'', JInt 200), (''utcDate'', JStr ''2026-01-03''),
             (''status'', JStr ''FINISHED''), (''matchday'', JInt 1),
             (''homeTeam'', JObj [(''id'', JInt 678), (''name'', JStr ''Ajax'')]),
             (''awayTeam'', JObj [(''id'', JInt 678), (''name'', JStr ''Ajax'')]),
             (''score'', JObj [(''fullTime'', JObj [(''home'', JInt 1), (''away'', JInt 0)])]),
             (''goals'', JArr [
                JObj [(''minute'', JInt 12), (''team'', JObj [(''name'', JStr ''Benfica'')]),
                      (''scorer'', JObj [(''name'', JStr ''Silva'')])]])]])]"

text \<open>A match with one goal whose \<^verbatim>\<open>team\<close> entry is \<^verbatim>\<open>null\<close>.\<close>

definition example_null_team_matches :: json where
  "example_null_team_matches =
     JObj [(''matches'', JArr [
       JObj [(''id'', JInt 300), (''utcDate'', JStr ''2026-01-04''),
             (''status'', JStr ''FINISHED''), (''matchday'', JInt 1),
             (''homeTeam'', JObj [(''id'', JInt 678), (''name'', JStr ''Ajax'')]),
             (''awayTeam'', JObj [(''id'', JInt 503), (''name'', JStr ''Porto'')]),
             (''score'', JObj [(''fullTime'', JObj [(''home'', JInt 1), (''away'', JInt 0)])]),
             (''goals'', JArr [
                JObj [(''minute'', JInt 12), (''team'', JNull),
                      (''scorer'', JObj [(''name'', JStr ''Silva'')])]])]])]"

section \<open>Properties of the registry\<close>

lemma get_or_create_known:
  "json_key n = Some k \<Longrightarrow> map_of (teams_dict st) k = Some t \<Longrightarrow>
   get_or_create_team_id n a st = Inr (t_id t, st)"
  by (auto simp: get_or_create_team_id_def Let_def dest: map_of_SomeD  intro: rev_image_eqI)

lemma get_or_create_new:
  "json_key n = Some k \<Longrightarrow> k \<notin> fst ` set (teams_dict st) \<Longrightarrow>
   get_or_create_team_id n a st =
     Inr (team_id_counter st,
          st\<lparr>teams_dict := teams_dict st @
                 [(k, \<lparr>t_id = team_id_counter st, t_name = n, t_api_id = a\<rparr>)],
              team_id_counter := team_id_counter st + 1\<rparr>)"
  by (auto simp: get_or_create_team_id_def Let_def map_of_eq_None_iff[THEN iffD2] split: option.splits)

lemma get_or_create_unhashable:
  "json_key n = None \<Longrightarrow> get_or_create_team_id n a st = Inl TypeError"
  by (simp add: get_or_create_team_id_def)

lemma snd_resolve_all_Cons:
  "snd (resolve_all ((n, a) # cs) st) =
     snd (resolve_all cs (case get_or_create_team_id n a st of Inl e \<Rightarrow> st | Inr (i, st1) \<Rightarrow> st1))"
  by (simp split: sum.splits prod.splits)

lemma fst_resolve_all_Cons:
  "fst (resolve_all ((n, a) # cs) st) =
     (case get_or_create_team_id n a st of Inl e \<Rightarrow> Inl e | Inr (i, st1) \<Rightarrow> Inr i) #
     fst (resolve_all cs (case get_or_create_team_id n a st of Inl e \<Rightarrow> st | Inr (i, st1) \<Rightarrow> st1))"
  by (simp split: sum.splits prod.splits)

lemma filter_notin_cong:
  "k \<in> S \<Longrightarrow> filter (\<lambda>c. fst c \<noteq> k \<and> fst c \<notin> S) xs = filter (\<lambda>c. fst c \<notin> S) xs"
  by (induction xs) auto

lemma resolve_all_dict:
  "team_id_counter st = int (length (teams_dict st)) + 1 \<Longrightarrow>
   teams_dict (snd (resolve_all calls st)) =
     teams_dict st @ map new_team (enumerate (length (teams_dict st))
        (filter (\<lambda>c. fst c \<notin> fst ` set (teams_dict st)) (first_calls calls)))
   \<and> team_id_counter (snd (resolve_all calls st)) = int (length (teams_dict (snd (resolve_all calls st)))) + 1"
proof (induction calls arbitrary: st)
  case Nil
  then show ?case by simp
next
  case (Cons c calls)
  obtain n a where c: "c = (n, a)" by (cases c)
  show ?case
  proof (cases "json_key n")
    case None
    then show ?thesis using Cons c by (simp add: snd_resolve_all_Cons get_or_create_unhashable del: resolve_all.simps)
  next
    case (Some k)
    show ?thesis
    proof (cases "k \<in> fst ` set (teams_dict st)")
      case True
      then obtain t where "map_of (teams_dict st) k = Some t"
        by (metis map_of_eq_None_iff not_Some_eq)
      then show ?thesis using Cons c Some True
        by (simp add: snd_resolve_all_Cons get_or_create_known filter_notin_cong del: resolve_all.simps)
    next
      case False
      let ?st1 = "st\<lparr>teams_dict := teams_dict st @
                 [(k, \<lparr>t_id = team_id_counter st, t_name = n, t_api_id = a\<rparr>)],
              team_id_counter := team_id_counter st + 1\<rparr>"
      have inv1: "team_id_counter ?st1 = int (length (teams_dict ?st1)) + 1"
        using Cons.prems by simp
      have f: "filter (\<lambda>c. fst c \<notin> fst ` set (teams_dict ?st1)) (first_calls calls)
            = filter (\<lambda>c. fst c \<noteq> k \<and> fst c \<notin> fst ` set (teams_dict st)) (first_calls calls)"
        by (auto intro: filter_cong)
      show ?thesis using Cons.IH[OF inv1] c Some False Cons.prems
        by (simp add: snd_resolve_all_Cons get_or_create_new f new_team_def del: resolve_all.simps)
    qed
  qed
qed


lemma first_calls_keys:
  "map fst (first_calls calls) = first_sightings (List.map_filter (\<lambda>c. json_key (fst c)) calls)"
proof (induction calls)
  case Nil
  then show ?case by (simp add: List.map_filter_simps)
next
  case (Cons c calls)
  have m: "\<And>k xs. map fst (filter (\<lambda>c. fst c \<noteq> k) xs) = filter (\<lambda>y. y \<noteq> k) (map fst xs)"
    by (simp add: filter_map comp_def)
  show ?case using Cons
    by (cases c) (simp add: List.map_filter_simps m split: option.splits)
qed

lemma resolve_all_initial:
  "teams_dict (snd (resolve_all calls initial_registry)) =
     map new_team (enumerate 0 (first_calls calls))"
  using resolve_all_dict[of initial_registry calls] by (simp add: initial_registry_def)

lemma new_team_ids:
  "map (\<lambda>(k, t). (k, t_id t)) (map new_team (enumerate m xs)) =
     zip (map fst xs) (map int [Suc m..<Suc m + length xs])"
proof (induction xs arbitrary: m)
  case Nil
  then show ?case by simp
next
  case (Cons x xs)
  have "[Suc m..<Suc m + length (x # xs)] = Suc m # [Suc (Suc m)..<Suc (Suc m) + length xs]"
    by (simp add: upt_rec)
  then show ?case using Cons[of "Suc m"]
    by (cases x) (simp add: new_team_def)
qed

lemma map_of_new_team:
  "map_of (map new_team (enumerate m xs)) k = Some t \<Longrightarrow>
   t_id t = int (m + index_of k (map fst xs)) + 1"
proof (induction xs arbitrary: m)
  case Nil
  then show ?case by simp
next
  case (Cons x xs)
  then show ?case
    by (cases x) (auto simp: new_team_def split: if_splits)
qed

lemma new_team_keys: "map fst (map new_team (enumerate m xs)) = map fst xs"
  by (induction xs arbitrary: m) (auto simp: new_team_def)

lemma get_or_create_cases:
  "(json_key n = None \<and> get_or_create_team_id n a st = Inl TypeError) \<or>
   (\<exists>k t st1 ext. json_key n = Some k \<and> get_or_create_team_id n a st = Inr (t_id t, st1) \<and>
        map_of (teams_dict st1) k = Some t \<and> teams_dict st1 = teams_dict st @ ext)"
proof (cases "json_key n")
  case None
  then show ?thesis by (simp add: get_or_create_unhashable)
next
  case (Some k)
  show ?thesis
  proof (cases "k \<in> fst ` set (teams_dict st)")
    case True
    then obtain t where "map_of (teams_dict st) k = Some t"
      by (metis map_of_eq_None_iff not_Some_eq)
    then show ?thesis using Some by (auto simp: get_or_create_known)
  next
    case False
    let ?t = "\<lparr>t_id = team_id_counter st, t_name = n, t_api_id = a\<rparr>"
    let ?st1 = "st\<lparr>teams_dict := teams_dict st @ [(k, ?t)],
                  team_id_counter := team_id_counter st + 1\<rparr>"
    have n: "map_of (teams_dict st) k = None" using False by (simp add: map_of_eq_None_iff)
    have "get_or_create_team_id n a st = Inr (t_id ?t, ?st1)"
      using Some False by (simp add: get_or_create_new)
    moreover have "map_of (teams_dict ?st1) k = Some ?t" using n by (simp add: map_add_def)
    moreover have "teams_dict ?st1 = teams_dict st @ [(k, ?t)]" by simp
    ultimately show ?thesis using Some by blast
  qed
qed

lemma resolve_all_extends:
  "\<exists>ext. teams_dict (snd (resolve_all calls st)) = teams_dict st @ ext"
proof (induction calls arbitrary: st)
  case Nil
  then show ?case by simp
next
  case (Cons c calls)
  obtain n a where c: "c = (n, a)" by (cases c)
  from get_or_create_cases[of n a st] show ?case
  proof (elim disjE conjE exE)
    assume "get_or_create_team_id n a st = Inl TypeError"
    then show ?thesis using Cons[of st] c
      by (simp add: snd_resolve_all_Cons del: resolve_all.simps)
  next
    fix k t st1 ext
    assume g: "get_or_create_team_id n a st = Inr (t_id t, st1)"
      and e: "teams_dict st1 = teams_dict st @ ext"
    from Cons[of st1] obtain ext' where
      "teams_dict (snd (resolve_all calls st1)) = teams_dict st1 @ ext'" by blast
    then show ?thesis using g e c
      by (simp add: snd_resolve_all_Cons del: resolve_all.simps)
  qed
qed

lemma resolve_all_results:
  "fst (resolve_all calls st) = map (\<lambda>c. stored_id (snd (resolve_all calls st)) (fst c)) calls"
proof (induction calls arbitrary: st)
  case Nil
  then show ?case by simp
next
  case (Cons c calls)
  obtain n a where c: "c = (n, a)" by (cases c)
  from get_or_create_cases[of n a st] show ?case
  proof (elim disjE conjE exE)
    assume "json_key n = None" "get_or_create_team_id n a st = Inl TypeError"
    then show ?thesis using Cons[of st] c
      by (simp add: snd_resolve_all_Cons fst_resolve_all_Cons stored_id_def del: resolve_all.simps)
  next
    fix k t st1 ext
    assume k: "json_key n = Some k" and g: "get_or_create_team_id n a st = Inr (t_id t, st1)"
      and m: "map_of (teams_dict st1) k = Some t"
    from resolve_all_extends[of calls st1] obtain ext' where
      "teams_dict (snd (resolve_all calls st1)) = teams_dict st1 @ ext'" by blast
    then have "map_of (teams_dict (snd (resolve_all calls st1))) k = Some t"
      using m by (simp add: map_add_Some_iff)
    then show ?thesis using Cons[of st1] c k g
      by (simp add: snd_resolve_all_Cons fst_resolve_all_Cons stored_id_def del: resolve_all.simps)
  qed
qed

lemma key_in_first_calls:
  "(n, a) \<in> set calls \<Longrightarrow> json_key n = Some k \<Longrightarrow> k \<in> fst ` set (first_calls calls)"
proof (induction calls)
  case Nil
  then show ?case by simp
next
  case (Cons c calls)
  obtain n' a' where c: "c = (n', a')" by (cases c)
  show ?case
  proof (cases "json_key n' = Some k")
    case True
    then show ?thesis using c by simp
  next
    case False
    then have "(n, a) \<in> set calls" using Cons.prems c by auto
    then have "k \<in> fst ` set (first_calls calls)" using Cons by blast
    then show ?thesis using c False by (auto split: option.splits)
  qed
qed

lemma resolve_all_ids:
  assumes "c \<in> set calls"
  shows "stored_id (snd (resolve_all calls initial_registry)) (fst c) =
     (case json_key (fst c) of
        None \<Rightarrow> Inl TypeError
      | Some k \<Rightarrow> Inr (int (index_of k (map fst (first_calls calls))) + 1))"
proof (cases "json_key (fst c)")
  case None
  then show ?thesis by (simp add: stored_id_def)
next
  case (Some k)
  then have "k \<in> fst ` set (first_calls calls)"
    using key_in_first_calls[of "fst c" "snd c" calls k] assms by simp
  then have "k \<in> fst ` set (map new_team (enumerate 0 (first_calls calls)))"
    using new_team_keys[of 0 "first_calls calls"] by (metis image_set)
  then obtain t where t: "map_of (map new_team (enumerate 0 (first_calls calls))) k = Some t"
    by (metis map_of_eq_None_iff not_Some_eq)
  then show ?thesis using Some map_of_new_team[OF t]
    by (simp add: stored_id_def resolve_all_initial)
qed

lemma sorted_new_team:
  "sorted (map (\<lambda>x. t_id (snd x)) (map new_team (enumerate m xs)))"
proof -
  have "map (\<lambda>x. t_id (snd x)) (map new_team (enumerate m xs)) =
        map snd (map (\<lambda>(k, t). (k, t_id t)) (map new_team (enumerate m xs)))"
    by (simp add: comp_def case_prod_beta)
  also have "\<dots> = map int [Suc m..<Suc m + length xs]"
    by (simp only: new_team_ids) simp
  finally show ?thesis
    by (simp add: sorted_map sorted_wrt_map del: upt_Suc)
qed

text \<open>
  Claim C1. Let any sequence of calls of \<^verbatim>\<open>get_or_create_team_id\<close> run on the
  initial registry (empty dict, counter 1), and let \<open>keys\<close> be the distinct names of
  the sequence in order of first sighting. Then the registry holds exactly these names,
  in this order, with the ids 1, 2, 3, ... in this order, and the counter is one more than
  their number; every call returns 1 plus the position of its name in \<open>keys\<close>, so a
  call with a name seen before returns the id of the first call with that name. (A call
  with an unhashable name raises \<^verbatim>\<open>TypeError\<close> and registers nothing.)
\<close>

theorem resolve_ids_sequential:
  assumes "keys = first_sightings (List.map_filter (\<lambda>c. json_key (fst c)) calls)"
    and "resolve_all calls initial_registry = (results, st)"
  shows "map (\<lambda>(k, t). (k, t_id t)) (teams_dict st) = zip keys (map int [1..<Suc (length keys)])
    \<and> team_id_counter st = int (length keys) + 1
    \<and> results = map (\<lambda>c. case json_key (fst c) of
                             None \<Rightarrow> Inl TypeError
                           | Some k \<Rightarrow> Inr (int (index_of k keys) + 1)) calls
    \<and> (\<forall>i<length calls. \<forall>j<length calls.
          fst (calls ! i) = fst (calls ! j) \<longrightarrow> results ! i = results ! j)"
proof -
  have k: "keys = map fst (first_calls calls)"
    using assms(1) by (simp add: first_calls_keys)
  have st: "st = snd (resolve_all calls initial_registry)"
    and rs: "results = fst (resolve_all calls initial_registry)"
    using assms(2) by simp_all
  have d: "teams_dict st = map new_team (enumerate 0 (first_calls calls))"
    using st by (simp add: resolve_all_initial)
  have a: "map (\<lambda>(k, t). (k, t_id t)) (teams_dict st) = zip keys (map int [1..<Suc (length keys)])"
    using new_team_ids[of 0 "first_calls calls"] by (simp add: d k del: upt_Suc)
  have b: "team_id_counter st = int (length keys) + 1"
    using resolve_all_dict[of initial_registry calls] st d k
    by (simp add: initial_registry_def)
  have c: "results = map (\<lambda>c. case json_key (fst c) of
                             None \<Rightarrow> Inl TypeError
                           | Some k \<Rightarrow> Inr (int (index_of k keys) + 1)) calls"
    unfolding rs k
    by (subst resolve_all_results) (simp add: resolve_all_ids)
  have e: "\<forall>i<length calls. \<forall>j<length calls.
          fst (calls ! i) = fst (calls ! j) \<longrightarrow> results ! i = results ! j"
    by (simp add: c)
  show ?thesis using a b c e by blast
qed

theorem resolve_ids_sequential_witness:
  "resolve_all [(JStr ''Ajax'', JInt 678), (JStr ''Porto'', JInt 503), (JStr ''Ajax'', JNull),
                (JArr [], JInt 1), (JStr ''Inter'', JInt 108)] initial_registry
     = ([Inr 1, Inr 2, Inr 1, Inl TypeError, Inr 3],
        \<lparr>teams_dict =
           [(KStr ''Ajax'', \<lparr>t_id = 1, t_name = JStr ''Ajax'', t_api_id = JInt 678\<rparr>),
            (KStr ''Porto'', \<lparr>t_id = 2, t_name = JStr ''Porto'', t_api_id = JInt 503\<rparr>),
            (KStr ''Inter'', \<lparr>t_id = 3, t_name = JStr ''Inter'', t_api_id = JInt 108\<rparr>)],
         team_id_counter = 4\<rparr>)
   \<and> fst (resolve_all [(JStr ''Ajax'', JInt 678), (JStr ''Porto'', JInt 503),
                (JStr ''Ajax'', JNull), (JArr [], JInt 1), (JStr ''Inter'', JInt 108)]
             initial_registry) ! 0
     = fst (resolve_all [(JStr ''Ajax'', JInt 678), (JStr ''Porto'', JInt 503),
                (JStr ''Ajax'', JNull), (JArr [], JInt 1), (JStr ''Inter'', JInt 108)]
             initial_registry) ! 2"
proof -
  let ?calls = "[(JStr ''Ajax'', JInt 678), (JStr ''Porto'', JInt 503), (JStr ''Ajax'', JNull),
                (JArr [], JInt 1), (JStr ''Inter'', JInt 108)]"
  have r: "resolve_all ?calls initial_registry
     = ([Inr 1, Inr 2, Inr 1, Inl TypeError, Inr 3],
        \<lparr>teams_dict =
           [(KStr ''Ajax'', \<lparr>t_id = 1, t_name = JStr ''Ajax'', t_api_id = JInt 678\<rparr>),
            (KStr ''Porto'', \<lparr>t_id = 2, t_name = JStr ''Porto'', t_api_id = JInt 503\<rparr>),
            (KStr ''Inter'', \<lparr>t_id = 3, t_name = JStr ''Inter'', t_api_id = JInt 108\<rparr>)],
         team_id_counter = 4\<rparr>)"
    by (simp add: get_or_create_team_id_def initial_registry_def)
  from resolve_ids_sequential[OF refl surjective_pairing, of ?calls]
  have "fst (resolve_all ?calls initial_registry) ! 0 = fst (resolve_all ?calls initial_registry) ! 2"
    by simp
  with r show ?thesis by simp
qed

text \<open>
  Claim C8. When the name is already a key of \<^verbatim>\<open>teams_dict\<close>, with entry \<open>t\<close>, the call
  returns the id of \<open>t\<close> and the registry afterwards is the registry before: the stored
  name, \<^verbatim>\<open>api_id\<close> and id of every entry and the counter are unchanged, whatever
  \<^verbatim>\<open>team_api_id\<close> the call passes.
\<close>

theorem resolve_known_unchanged:
  assumes "json_key team_name = Some k" and "map_of (teams_dict st) k = Some t"
  shows "get_or_create_team_id team_name team_api_id st = Inr (t_id t, st)"
  using assms by (rule get_or_create_known)

theorem resolve_known_unchanged_witness:
  "get_or_create_team_id (JStr ''Ajax'') (JInt 999)
     \<lparr>teams_dict = [(KStr ''Ajax'', \<lparr>t_id = 1, t_name = JStr ''Ajax'', t_api_id = JInt 678\<rparr>)],
      team_id_counter = 2\<rparr>
   = Inr (1, \<lparr>teams_dict =
               [(KStr ''Ajax'', \<lparr>t_id = 1, t_name = JStr ''Ajax'', t_api_id = JInt 678\<rparr>)],
             team_id_counter = 2\<rparr>)"
  using resolve_known_unchanged[of "JStr ''Ajax''" "KStr ''Ajax''"
      "\<lparr>teams_dict = [(KStr ''Ajax'', \<lparr>t_id = 1, t_name = JStr ''Ajax'', t_api_id = JInt 678\<rparr>)],
        team_id_counter = 2\<rparr>"
      "\<lparr>t_id = 1, t_name = JStr ''Ajax'', t_api_id = JInt 678\<rparr>" "JInt 999"]
  by simp

text \<open>
  Claim C4. On the registry reached from the initial one by any sequence of calls of
  \<^verbatim>\<open>get_or_create_team_id\<close> (the calls of all stages, in the order made; the registry
  is changed by nothing else, see \<open>main_block_calls\<close>),
  \<^verbatim>\<open>save_teams_table\<close> writes the file \<^verbatim>\<open>teams_<timestamp>.csv\<close> with the header row
  followed by one row \<^verbatim>\<open>[id, name, api_id]\<close> for each entry of the registry, in the
  order of the registry; these rows are the first sightings of the distinct names, in
  order of first sighting, numbered 1, 2, 3, ..., each with the name and \<^verbatim>\<open>api_id\<close> of
  the first call with that name.
\<close>

theorem save_teams_table_rows:
  assumes "resolve_all calls initial_registry = (results, st)"
    and "save_teams_table timestamp st = (filename, written)"
  shows "filename = ''teams_'' @ timestamp @ ''.csv''
    \<and> fst written = filename
    \<and> snd written = teams_headers # map (\<lambda>(k, t). team_row t) (teams_dict st)
    \<and> map (\<lambda>(k, t). team_row t) (teams_dict st) =
        map (\<lambda>(i, k, n, a). [JInt (int i + 1), n, a]) (enumerate 0 (first_calls calls))
    \<and> map fst (first_calls calls) =
        first_sightings (List.map_filter (\<lambda>c. json_key (fst c)) calls)"
proof -
  have st: "st = snd (resolve_all calls initial_registry)" using assms(1) by simp
  have d: "teams_dict st = map new_team (enumerate 0 (first_calls calls))"
    using st by (simp add: resolve_all_initial)
  have s: "sort_key (\<lambda>x. t_id (snd x)) (teams_dict st) = teams_dict st"
    unfolding d by (rule sort_key_id_if_sorted) (rule sorted_new_team)
  have r: "map (\<lambda>(k, t). team_row t) (teams_dict st) =
        map (\<lambda>(i, k, n, a). [JInt (int i + 1), n, a]) (enumerate 0 (first_calls calls))"
    unfolding d by (simp add: new_team_def team_row_def case_prod_beta)
  show ?thesis using assms(2) s r
    by (auto simp: save_teams_table_def Let_def first_calls_keys)
qed

theorem save_teams_table_rows_witness:
  "snd (snd (save_teams_table ''20260101_120000''
     (snd (resolve_all [(JStr ''Porto'', JInt 503), (JStr ''Ajax'', JInt 678),
                        (JStr ''Porto'', JNull)] initial_registry))))
   = [[JStr ''team_id'', JStr ''team_name'', JStr ''api_id''],
      [JInt 1, JStr ''Porto'', JInt 503],
      [JInt 2, JStr ''Ajax'', JInt 678]]"
  using save_teams_table_rows[
      where calls = "[(JStr ''Porto'', JInt 503), (JStr ''Ajax'', JInt 678), (JStr ''Porto'', JNull)]"
        and timestamp = "''20260101_120000''",
      OF surjective_pairing surjective_pairing]
  by (simp add: teams_headers_def)

section \<open>Properties of the fetch stages\<close>


lemma and_then_eq_Inr:
  "and_then m f = Inr y \<longleftrightarrow> (\<exists>x. m = Inr x \<and> f x = Inr y)"
  by (cases m) (simp_all add: and_then_def)

subsection \<open>Exceptions that reach the stage boundary\<close>

































lemma subscr_Inr_in: "subscr x k = Inr v \<Longrightarrow> py_in k x = Inr True"
  by (cases x) (auto split: option.splits dest!: map_of_SomeD intro: rev_image_eqI)

subsection \<open>Goal rows\<close>

lemma goal_row_cells:
  assumes "goal_row match match_id h a goal goal_id = Inr r"
  shows "\<exists>scorer_team home_name scorer minute score.
      goal_team_name goal = Inr scorer_team
    \<and> subscr_path match [''homeTeam'', ''name''] = Inr home_name
    \<and> scorer_name goal = Inr scorer
    \<and> py_get goal ''minute'' (JStr []) = Inr minute
    \<and> py_get goal ''score'' (JObj []) = Inr score
    \<and> r = [JInt goal_id, match_id,
           JInt (if py_eq scorer_team home_name then h else a), scorer, minute, score]"
  using assms
  by (auto simp: goal_row_def Let_def and_then_eq_Inr simp del: subscr_path.simps)

lemma goal_ids_snoc:
  "goal_ids goal_id goals_data \<Longrightarrow> hd r = JInt goal_id \<Longrightarrow>
   goal_ids (goal_id + 1) (goals_data @ [r])"
  by (simp add: goal_ids_def)

lemma goals_loop_rows:
  assumes "goals_loop match match_id h a goals goal_id goals_data = Inr (goal_id', goals_data')"
  shows "\<exists>rows. goals_data' = goals_data @ rows
    \<and> list_all2 (\<lambda>goal r. \<exists>i. goal_row match match_id h a goal i = Inr r) goals rows"
  using assms
proof (induction goals arbitrary: goal_id goals_data)
  case Nil
  then show ?case by simp
next
  case (Cons goal goals)
  from Cons.prems obtain r where r: "goal_row match match_id h a goal goal_id = Inr r"
    and l: "goals_loop match match_id h a goals (goal_id + 1) (goals_data @ [r])
              = Inr (goal_id', goals_data')"
    by (auto split: sum.splits)
  from Cons.IH[OF l] obtain rows where
    "goals_data' = (goals_data @ [r]) @ rows"
    "list_all2 (\<lambda>goal r. \<exists>i. goal_row match match_id h a goal i = Inr r) goals rows"
    by blast
  then have "goals_data' = goals_data @ (r # rows)
    \<and> list_all2 (\<lambda>goal r. \<exists>i. goal_row match match_id h a goal i = Inr r) (goal # goals) (r # rows)"
    using r by auto
  then show ?case by blast
qed

lemma goals_loop_ids:
  assumes "goals_loop match match_id h a goals goal_id goals_data = Inr (goal_id', goals_data')"
    and "goal_ids goal_id goals_data"
  shows "goal_ids goal_id' goals_data'"
  using assms
proof (induction goals arbitrary: goal_id goals_data)
  case Nil
  then show ?case by simp
next
  case (Cons goal goals)
  from Cons.prems(1) obtain r where r: "goal_row match match_id h a goal goal_id = Inr r"
    and l: "goals_loop match match_id h a goals (goal_id + 1) (goals_data @ [r])
              = Inr (goal_id', goals_data')"
    by (auto split: sum.splits)
  have "hd r = JInt goal_id" using goal_row_cells[OF r] by auto
  then show ?case using Cons.IH[OF l] Cons.prems(2) by (simp add: goal_ids_snoc)
qed

lemma match_step_parts:
  assumes "match_step match st goal_id matches_data goals_data
             = (Inr (goal_id', matches_data', goals_data'), st')"
  shows "\<exists>home_team_id away_team_id st1 match_id r goals.
      resolve_team match ''homeTeam'' st = (Inr home_team_id, st1)
    \<and> resolve_team match ''awayTeam'' st1 = (Inr away_team_id, st')
    \<and> match_row match home_team_id away_team_id = Inr (match_id, r)
    \<and> match_goals match = Inr goals
    \<and> goals_loop match match_id home_team_id away_team_id goals goal_id goals_data
         = Inr (goal_id', goals_data')
    \<and> matches_data' = matches_data @ [r]"
  using assms
  by (auto simp: match_step_def and_then_eq_Inr split: sum.splits prod.splits)

lemma matches_loop_ids:
  assumes "matches_loop matches st goal_id matches_data goals_data
             = (Inr (goal_id', matches_data', goals_data'), st')"
    and "goal_ids goal_id goals_data"
  shows "goal_ids goal_id' goals_data'
    \<and> length goals_data' = length goals_data + sum_list (map goal_count matches)
    \<and> length matches_data' = length matches_data + length matches"
  using assms
proof (induction matches arbitrary: st goal_id matches_data goals_data)
  case Nil
  then show ?case by simp
next
  case (Cons match matches)
  from Cons.prems(1) obtain g1 md1 gd1 st1 where
    s: "match_step match st goal_id matches_data goals_data = (Inr (g1, md1, gd1), st1)"
    and l: "matches_loop matches st1 g1 md1 gd1 = (Inr (goal_id', matches_data', goals_data'), st')"
    by (auto split: sum.splits prod.splits)
  from match_step_parts[OF s] obtain h a match_id r goals where
    g: "match_goals match = Inr goals"
    and gl: "goals_loop match match_id h a goals goal_id goals_data = Inr (g1, gd1)"
    and md: "md1 = matches_data @ [r]"
    by blast
  have i1: "goal_ids g1 gd1" using goals_loop_ids[OF gl Cons.prems(2)] .
  from goals_loop_rows[OF gl] obtain rows where
    "gd1 = goals_data @ rows" "length goals = length rows"
    by (auto dest: list_all2_lengthD)
  then have n: "length gd1 = length goals_data + goal_count match"
    using g by (simp add: goal_count_def)
  show ?case using Cons.IH[OF l i1] n md by simp
qed

subsection \<open>The rows of the two files\<close>

text \<open>
  The data rows of the matches file are the results of \<^verbatim>\<open>match_row\<close> on the matches of the
  payload, in order; every data row of the goals file is the result of \<^verbatim>\<open>goal_row\<close> on a
  goal of one of the matches.
\<close>

lemma matches_loop_rows:
  assumes "matches_loop matches st goal_id matches_data goals_data
             = (Inr (goal_id', matches_data', goals_data'), st')"
  shows "\<exists>mrows grows. matches_data' = matches_data @ mrows \<and> goals_data' = goals_data @ grows
    \<and> list_all2 (\<lambda>match r. \<exists>h a match_id. match_row match h a = Inr (match_id, r))
         matches mrows
    \<and> (\<forall>r\<in>set grows. \<exists>match\<in>set matches. \<exists>match_id h a goals goal i.
          match_goals match = Inr goals \<and> goal \<in> set goals
        \<and> goal_row match match_id h a goal i = Inr r)"
  using assms
proof (induction matches arbitrary: st goal_id matches_data goals_data)
  case Nil
  then show ?case by simp
next
  case (Cons match matches)
  from Cons.prems(1) obtain g1 md1 gd1 st1 where
    s: "match_step match st goal_id matches_data goals_data = (Inr (g1, md1, gd1), st1)"
    and l: "matches_loop matches st1 g1 md1 gd1 = (Inr (goal_id', matches_data', goals_data'), st')"
    by (auto split: sum.splits prod.splits)
  from match_step_parts[OF s] obtain h a match_id r goals where
    mr: "match_row match h a = Inr (match_id, r)"
    and g: "match_goals match = Inr goals"
    and gl: "goals_loop match match_id h a goals goal_id goals_data = Inr (g1, gd1)"
    and md: "md1 = matches_data @ [r]"
    by blast
  from goals_loop_rows[OF gl] obtain rows where
    gd: "gd1 = goals_data @ rows"
    and rows: "list_all2 (\<lambda>goal r. \<exists>i. goal_row match match_id h a goal i = Inr r) goals rows"
    by blast
  from Cons.IH[OF l] obtain mrows grows where
    a: "matches_data' = md1 @ mrows" and b: "goals_data' = gd1 @ grows"
    and c: "list_all2 (\<lambda>match r. \<exists>h a match_id. match_row match h a = Inr (match_id, r))
         matches mrows"
    and d: "\<forall>r\<in>set grows. \<exists>match\<in>set matches. \<exists>match_id h a goals goal i.
          match_goals match = Inr goals \<and> goal \<in> set goals
        \<and> goal_row match match_id h a goal i = Inr r"
    by blast
  have e: "\<forall>r\<in>set rows. \<exists>goal i. goal \<in> set goals \<and> goal_row match match_id h a goal i = Inr r"
  proof
    fix x assume "x \<in> set rows"
    then obtain j where j: "j < length rows" "rows ! j = x"
      by (auto simp: in_set_conv_nth)
    with rows have "j < length goals" "\<exists>i. goal_row match match_id h a (goals ! j) i = Inr x"
      by (auto simp: list_all2_conv_all_nth)
    then show "\<exists>goal i. goal \<in> set goals \<and> goal_row match match_id h a goal i = Inr x"
      using nth_mem by blast
  qed
  have "matches_data' = matches_data @ (r # mrows)" using a md by simp
  moreover have "goals_data' = goals_data @ (rows @ grows)" using b gd by simp
  moreover have "list_all2 (\<lambda>match r. \<exists>h a match_id. match_row match h a = Inr (match_id, r))
         (match # matches) (r # mrows)" using c mr by auto
  moreover have "\<forall>r\<in>set (rows @ grows). \<exists>m\<in>set (match # matches). \<exists>match_id h a goals goal i.
          match_goals m = Inr goals \<and> goal \<in> set goals
        \<and> goal_row m match_id h a goal i = Inr r"
  proof
    fix x assume "x \<in> set (rows @ grows)"
    then consider "x \<in> set rows" | "x \<in> set grows" by auto
    then show "\<exists>m\<in>set (match # matches). \<exists>match_id h a goals goal i.
          match_goals m = Inr goals \<and> goal \<in> set goals
        \<and> goal_row m match_id h a goal i = Inr x"
    proof cases
      case 1
      then show ?thesis using e g by (metis list.set_intros(1))
    next
      case 2
      then show ?thesis using d by (metis list.set_intros(2))
    qed
  qed
  ultimately show ?case by blast
qed

lemma matches_files_rows:
  assumes "fetch_champions_league_matches response timestamp st = (result, st', files)"
    and "files \<noteq> []"
  shows "\<exists>data matches matches_data goals_data.
        response = Inr data
      \<and> and_then (subscr data ''matches'') py_iter = Inr matches
      \<and> files = [(''matches_'' @ timestamp @ ''.csv'', matches_headers # matches_data),
                 (''goals_'' @ timestamp @ ''.csv'', goals_headers # goals_data)]
      \<and> list_all2 (\<lambda>match r. \<exists>h a match_id. match_row match h a = Inr (match_id, r))
           matches matches_data
      \<and> (\<forall>r\<in>set goals_data. \<exists>match\<in>set matches. \<exists>match_id h a goals goal i.
            match_goals match = Inr goals \<and> goal \<in> set goals
          \<and> goal_row match match_id h a goal i = Inr r)"
proof -
  from assms obtain data matches g md gd where
    d: "response = Inr data" and m: "and_then (subscr data ''matches'') py_iter = Inr matches"
    and l: "matches_loop matches st 1 [] [] = (Inr (g, md, gd), st')"
    and fs: "files = [(''matches_'' @ timestamp @ ''.csv'', matches_headers # md),
                 (''goals_'' @ timestamp @ ''.csv'', goals_headers # gd)]"
    by (auto simp: fetch_champions_league_matches_def matches_try_def Let_def
        except_Exception_def split: sum.splits bool.splits prod.splits)
  from matches_loop_rows[OF l] d m fs show ?thesis by auto
qed

subsection \<open>The registry after the stages\<close>

text \<open>
  The stages change the registry through \<^verbatim>\<open>get_or_create_team_id\<close> only: the registry
  after a stage, and after the three stages of the main block, is the registry a sequence
  of calls leaves.
\<close>

lemma snd_resolve_all_append:
  "snd (resolve_all (xs @ ys) st) = snd (resolve_all ys (snd (resolve_all xs st)))"
proof (induction xs arbitrary: st)
  case Nil
  then show ?case by simp
next
  case (Cons c xs)
  obtain n a where c: "c = (n, a)" by (cases c)
  show ?case using Cons c
    by (simp add: snd_resolve_all_Cons del: resolve_all.simps)
qed

lemma resolve_team_calls:
  "\<exists>calls. snd (resolve_team x k st) = snd (resolve_all calls st)"
proof (cases "snd (resolve_team x k st) = st")
  case True
  then have "snd (resolve_team x k st) = snd (resolve_all [] st)" by simp
  then show ?thesis by blast
next
  case False
  then obtain n i team_id where
    "get_or_create_team_id n i st = Inr (team_id, snd (resolve_team x k st))"
    by (auto simp: resolve_team_def split: sum.splits prod.splits)
  then have "snd (resolve_team x k st) = snd (resolve_all [(n, i)] st)"
    by simp
  then show ?thesis by blast
qed

lemma standings_entry_calls:
  "\<exists>calls. snd (standings_entry idx team st) = snd (resolve_all calls st)"
  using resolve_team_calls[of team "''team''" st]
  by (auto simp: standings_entry_def split: sum.splits prod.splits)

lemma scorers_entry_calls:
  "\<exists>calls. snd (scorers_entry idx scorer st) = snd (resolve_all calls st)"
  using resolve_team_calls[of scorer "''team''" st]
  by (auto simp: scorers_entry_def split: sum.splits prod.splits)

lemma match_step_calls:
  "\<exists>calls. snd (match_step match st goal_id matches_data goals_data) = snd (resolve_all calls st)"
proof -
  obtain c1 where c1: "snd (resolve_team match ''homeTeam'' st) = snd (resolve_all c1 st)"
    using resolve_team_calls by blast
  obtain c2 where c2: "snd (resolve_team match ''awayTeam'' (snd (resolve_team match ''homeTeam'' st)))
      = snd (resolve_all c2 (snd (resolve_team match ''homeTeam'' st)))"
    using resolve_team_calls by blast
  have "snd (match_step match st goal_id matches_data goals_data) = snd (resolve_all c1 st)
      \<or> snd (match_step match st goal_id matches_data goals_data) = snd (resolve_all (c1 @ c2) st)"
    using c1 c2
    by (auto simp: match_step_def snd_resolve_all_append split: sum.splits prod.splits)
  then show ?thesis by blast
qed

lemma standings_loop_calls:
  "\<exists>calls. fst (snd (standings_loop idx teams st written)) = snd (resolve_all calls st)"
proof (induction teams arbitrary: idx st written)
  case Nil
  have "fst (snd (standings_loop idx [] st written)) = snd (resolve_all [] st)" by simp
  then show ?case by blast
next
  case (Cons team teams)
  obtain c1 where c1: "snd (standings_entry idx team st) = snd (resolve_all c1 st)"
    using standings_entry_calls by blast
  show ?case
  proof (cases "fst (standings_entry idx team st)")
    case (Inl e)
    then have "fst (snd (standings_loop idx (team # teams) st written)) = snd (resolve_all c1 st)"
      using c1 by (auto split: sum.splits prod.splits)
    then show ?thesis by blast
  next
    case (Inr r)
    from Cons[of "idx + 1" "snd (standings_entry idx team st)" "written @ [r]"]
    obtain c2 where "fst (snd (standings_loop (idx + 1) teams (snd (standings_entry idx team st))
        (written @ [r]))) = snd (resolve_all c2 (snd (standings_entry idx team st)))"
      by blast
    then have "fst (snd (standings_loop idx (team # teams) st written))
        = snd (resolve_all (c1 @ c2) st)"
      using Inr c1 by (auto simp: snd_resolve_all_append split: sum.splits prod.splits)
    then show ?thesis by blast
  qed
qed

lemma scorers_loop_calls:
  "\<exists>calls. fst (snd (scorers_loop idx entries st written)) = snd (resolve_all calls st)"
proof (induction entries arbitrary: idx st written)
  case Nil
  have "fst (snd (scorers_loop idx [] st written)) = snd (resolve_all [] st)" by simp
  then show ?case by blast
next
  case (Cons scorer entries)
  obtain c1 where c1: "snd (scorers_entry idx scorer st) = snd (resolve_all c1 st)"
    using scorers_entry_calls by blast
  show ?case
  proof (cases "fst (scorers_entry idx scorer st)")
    case (Inl e)
    then have "fst (snd (scorers_loop idx (scorer # entries) st written)) = snd (resolve_all c1 st)"
      using c1 by (auto split: sum.splits prod.splits)
    then show ?thesis by blast
  next
    case (Inr r)
    from Cons[of "idx + 1" "snd (scorers_entry idx scorer st)" "written @ [r]"]
    obtain c2 where "fst (snd (scorers_loop (idx + 1) entries (snd (scorers_entry idx scorer st))
        (written @ [r]))) = snd (resolve_all c2 (snd (scorers_entry idx scorer st)))"
      by blast
    then have "fst (snd (scorers_loop idx (scorer # entries) st written))
        = snd (resolve_all (c1 @ c2) st)"
      using Inr c1 by (auto simp: snd_resolve_all_append split: sum.splits prod.splits)
    then show ?thesis by blast
  qed
qed

lemma matches_loop_calls:
  "\<exists>calls. snd (matches_loop matches st goal_id matches_data goals_data) = snd (resolve_all calls st)"
proof (induction matches arbitrary: st goal_id matches_data goals_data)
  case Nil
  have "snd (matches_loop [] st goal_id matches_data goals_data) = snd (resolve_all [] st)" by simp
  then show ?case by blast
next
  case (Cons match matches)
  obtain c1 where c1: "snd (match_step match st goal_id matches_data goals_data)
      = snd (resolve_all c1 st)"
    using match_step_calls by blast
  show ?case
  proof (cases "fst (match_step match st goal_id matches_data goals_data)")
    case (Inl e)
    then have "snd (matches_loop (match # matches) st goal_id matches_data goals_data)
        = snd (resolve_all c1 st)"
      using c1 by (auto split: sum.splits prod.splits)
    then show ?thesis by blast
  next
    case (Inr x)
    obtain g1 md1 gd1 where x: "x = (g1, md1, gd1)" by (cases x)
    from Cons[of "snd (match_step match st goal_id matches_data goals_data)" g1 md1 gd1]
    obtain c2 where "snd (matches_loop matches
          (snd (match_step match st goal_id matches_data goals_data)) g1 md1 gd1)
        = snd (resolve_all c2 (snd (match_step match st goal_id matches_data goals_data)))"
      by blast
    then have "snd (matches_loop (match # matches) st goal_id matches_data goals_data)
        = snd (resolve_all (c1 @ c2) st)"
      using Inr x c1 by (auto simp: snd_resolve_all_append split: sum.splits prod.splits)
    then show ?thesis by blast
  qed
qed

lemma stages_only_resolve:
  "\<exists>calls. fst (snd (fetch_champions_league_standings response timestamp st))
            = snd (resolve_all calls st)"
  "\<exists>calls. fst (snd (fetch_champions_league_matches response timestamp st))
            = snd (resolve_all calls st)"
  "\<exists>calls. fst (snd (fetch_top_scorers response timestamp st))
            = snd (resolve_all calls st)"
proof -
  have n: "st = snd (resolve_all [] st)" by simp
  have "fst (snd (fetch_champions_league_standings response timestamp st)) = st
      \<or> (\<exists>teams. fst (snd (fetch_champions_league_standings response timestamp st))
            = fst (snd (standings_loop 1 teams st [standings_headers])))"
    by (auto simp: fetch_champions_league_standings_def standings_try_def Let_def
        split: sum.splits bool.splits prod.splits option.splits)
       (metis fst_conv snd_conv)+
  then show "\<exists>calls. fst (snd (fetch_champions_league_standings response timestamp st))
            = snd (resolve_all calls st)"
    using standings_loop_calls[of 1 _ st "[standings_headers]"] n by metis
  have "fst (snd (fetch_champions_league_matches response timestamp st)) = st
      \<or> (\<exists>matches. fst (snd (fetch_champions_league_matches response timestamp st))
            = snd (matches_loop matches st 1 [] []))"
    by (auto simp: fetch_champions_league_matches_def matches_try_def Let_def
        split: sum.splits bool.splits prod.splits)
       (metis snd_conv)+
  then show "\<exists>calls. fst (snd (fetch_champions_league_matches response timestamp st))
            = snd (resolve_all calls st)"
    using matches_loop_calls[of _ st 1 "[]" "[]"] n by metis
  have "fst (snd (fetch_top_scorers response timestamp st)) = st
      \<or> (\<exists>entries. fst (snd (fetch_top_scorers response timestamp st))
            = fst (snd (scorers_loop 1 entries st [scorers_headers])))"
    by (auto simp: fetch_top_scorers_def scorers_try_def Let_def
        split: sum.splits bool.splits prod.splits option.splits)
       (metis fst_conv snd_conv)+
  then show "\<exists>calls. fst (snd (fetch_top_scorers response timestamp st))
            = snd (resolve_all calls st)"
    using scorers_loop_calls[of 1 _ st "[scorers_headers]"] n by metis
qed

lemma main_block_calls:
  "\<exists>calls. fst (snd (main_block standings_in matches_in scorers_in teams_timestamp st))
     = snd (resolve_all calls st)"
proof -
  let ?st1 = "fst (snd (fetch_champions_league_standings (fst standings_in) (snd standings_in) st))"
  let ?st2 = "fst (snd (fetch_champions_league_matches (fst matches_in) (snd matches_in) ?st1))"
  let ?st3 = "fst (snd (fetch_top_scorers (fst scorers_in) (snd scorers_in) ?st2))"
  obtain c1 where c1: "?st1 = snd (resolve_all c1 st)"
    using stages_only_resolve(1) by blast
  obtain c2 where c2: "?st2 = snd (resolve_all c2 ?st1)"
    using stages_only_resolve(2) by blast
  obtain c3 where c3: "?st3 = snd (resolve_all c3 ?st2)"
    using stages_only_resolve(3) by blast
  have 2: "?st2 = snd (resolve_all (c1 @ c2) st)"
    using c1 c2 by (simp add: snd_resolve_all_append)
  have 3: "?st3 = snd (resolve_all ((c1 @ c2) @ c3) st)"
    using 2 c3 by (simp only: snd_resolve_all_append)
  have "fst (snd (main_block standings_in matches_in scorers_in teams_timestamp st))
          \<in> {?st1, ?st2, ?st3}"
    by (auto simp: main_block_def split: sum.splits prod.splits)
  then show ?thesis using c1 2 3 by (metis insertE singletonD)
qed

subsection \<open>Claims about the stages\<close>

lemma distinct_goal_ids: "distinct (map (\<lambda>i. JInt (int i)) [1..<Suc n])"
  by (simp add: distinct_map inj_on_def del: upt_Suc)

lemmas stage_defs = fetch_champions_league_matches_def matches_try_def match_step_def
  resolve_team_def get_or_create_team_id_def initial_registry_def and_then_def match_row_def
  match_goals_def goal_row_def goal_team_name_def scorer_name_def py_eq_def
  except_Exception_def matches_headers_def goals_headers_def Let_def
  example_matches_def example_played_match_def example_timed_match_def

lemma example_matches_run:
  "fetch_champions_league_matches (Inr example_matches) ''20260101_120000'' initial_registry =
    (Inr (PTuple [PStr ''matches_20260101_120000.csv'', PStr ''goals_20260101_120000.csv'']),
     \<lparr>teams_dict =
        [(KStr ''Ajax'', \<lparr>t_id = 1, t_name = JStr ''Ajax'', t_api_id = JInt 678\<rparr>),
         (KStr ''Porto'', \<lparr>t_id = 2, t_name = JStr ''Porto'', t_api_id = JInt 503\<rparr>),
         (KStr ''Inter'', \<lparr>t_id = 3, t_name = JStr ''Inter'', t_api_id = JInt 108\<rparr>)],
      team_id_counter = 4\<rparr>,
     [(''matches_20260101_120000.csv'',
       [[JStr ''match_id'', JStr ''match_day'', JStr ''date'', JStr ''home_team_id'',
         JStr ''away_team_id'', JStr ''home_score'', JStr ''away_score'', JStr ''status''],
        [JInt 100, JNull, JStr ''2026-01-01'', JInt 1, JInt 2, JInt 1, JInt 1,
         JStr ''FINISHED''],
        [JInt 101, JStr ''N/A'', JStr ''2026-01-02'', JInt 2, JInt 3, JStr [], JStr [],
         JStr ''TIMED''],
        [JInt 100, JNull, JStr ''2026-01-01'', JInt 1, JInt 2, JInt 1, JInt 1,
         JStr ''FINISHED'']]),
      (''goals_20260101_120000.csv'',
       [[JStr ''goal_id'', JStr ''match_id'', JStr ''team_id'', JStr ''scorer_name'',
         JStr ''minute'', JStr ''score''],
        [JInt 1, JInt 100, JInt 1, JNull, JInt 7, JObj []],
        [JInt 2, JInt 100, JInt 2, JStr ''Unknown'', JInt 80, JObj []],
        [JInt 3, JInt 100, JInt 1, JNull, JInt 7, JObj []],
        [JInt 4, JInt 100, JInt 2, JStr ''Unknown'', JInt 80, JObj []]])])"
  by (simp add: stage_defs)

text \<open>
  Claim C2. Whatever the response, the timestamp and the registry, a run of
  \<^verbatim>\<open>fetch_champions_league_matches\<close> either writes no file and returns no pair of file
  names, or returns the two file names and writes the matches file and the goals file;
  the goal ids in the goals file (the first cell of each data row) are then 1, 2, ..., n
  in row order, hence pairwise distinct and strictly increasing, where n is the number of
  goals of all matches of the payload together (a match with no goals contributes 0).
\<close>

theorem goal_ids_increasing:
  assumes "fetch_champions_league_matches response timestamp st = (result, st', files)"
  shows "(files = [] \<and> (\<forall>m g. result \<noteq> Inr (PTuple [PStr m, PStr g]))) \<or>
    (\<exists>data matches matches_data goals_data.
        response = Inr data
      \<and> and_then (subscr data ''matches'') py_iter = Inr matches
      \<and> result = Inr (PTuple [PStr (''matches_'' @ timestamp @ ''.csv''),
                               PStr (''goals_'' @ timestamp @ ''.csv'')])
      \<and> files = [(''matches_'' @ timestamp @ ''.csv'', matches_headers # matches_data),
                 (''goals_'' @ timestamp @ ''.csv'', goals_headers # goals_data)]
      \<and> map hd goals_data = map (\<lambda>i. JInt (int i)) [1..<Suc (length goals_data)]
      \<and> distinct (map hd goals_data)
      \<and> length goals_data = sum_list (map goal_count matches))"
proof (cases "snd (snd (matches_try response timestamp st)) = []")
  case True
  then show ?thesis using assms
    by (auto simp: fetch_champions_league_matches_def matches_try_def Let_def
        except_Exception_def split: sum.splits bool.splits prod.splits if_splits)
next
  case False
  then obtain data matches g md gd where
    d: "response = Inr data" and m: "and_then (subscr data ''matches'') py_iter = Inr matches"
    and l: "matches_loop matches st 1 [] [] = (Inr (g, md, gd), st')"
    and fs: "files = [(''matches_'' @ timestamp @ ''.csv'', matches_headers # md),
                 (''goals_'' @ timestamp @ ''.csv'', goals_headers # gd)]"
    and r: "result = Inr (PTuple [PStr (''matches_'' @ timestamp @ ''.csv''),
                               PStr (''goals_'' @ timestamp @ ''.csv'')])"
    using assms
    by (auto simp: fetch_champions_league_matches_def matches_try_def Let_def
        except_Exception_def split: sum.splits bool.splits prod.splits)
  have "goal_ids 1 []" by (simp add: goal_ids_def)
  from matches_loop_ids[OF l this]
  have i: "goal_ids g gd" and n: "length gd = sum_list (map goal_count matches)"
    by simp_all
  have "map hd gd = map (\<lambda>i. JInt (int i)) [1..<Suc (length gd)]"
    using i by (simp add: goal_ids_def)
  moreover from this have "distinct (map hd gd)"
    by (simp only: distinct_goal_ids)
  ultimately show ?thesis using d m fs r n by blast
qed

theorem goal_ids_increasing_witness:
  "map hd (tl (snd (snd (snd (fetch_champions_league_matches (Inr example_matches)
       ''20260101_120000'' initial_registry)) ! 1)))
   = [JInt 1, JInt 2, JInt 3, JInt 4]
   \<and> map goal_count [example_played_match, example_timed_match, example_played_match]
   = [2, 0, 2]"
proof -
  have c: "map goal_count [example_played_match, example_timed_match, example_played_match]
             = [2, 0, 2]"
    by (simp add: goal_count_def match_goals_def and_then_def example_played_match_def
        example_timed_match_def)
  from goal_ids_increasing[OF example_matches_run]
  show ?thesis using c by (simp add: example_matches_run)
qed

subsection \<open>Attribution of goals\<close>

lemma py_eq_JStr: "py_eq nm (JStr s) \<longleftrightarrow> nm = JStr s"
  by (cases nm) (auto simp: py_eq_def)

lemma goal_team_name_reads:
  assumes "goal_team_name goal = Inr x"
  shows "\<exists>g. goal = JObj g
    \<and> (map_of g ''team'' = None \<or> (\<exists>t. map_of g ''team'' = Some (JObj t)))
    \<and> (\<forall>nm. goal_names g nm \<longrightarrow> nm = x)"
proof -
  from assms obtain g where g: "goal = JObj g"
    by (cases goal) (simp_all add: goal_team_name_def and_then_def)
  show ?thesis
  proof (cases "map_of g ''team''")
    case None
    then show ?thesis using assms g
      by (auto simp: goal_team_name_def and_then_def goal_names_def)
  next
    case (Some v)
    then obtain t where t: "v = JObj t" using assms g
      by (cases v) (simp_all add: goal_team_name_def and_then_def)
    then show ?thesis using assms g Some
      by (auto simp: goal_team_name_def and_then_def goal_names_def split: option.splits)
  qed
qed

lemma goal_row_attributed:
  assumes "goal_row (JObj m) match_id h a goal i = Inr r"
    and "map_of m ''homeTeam'' = Some (JObj ht)" and "map_of ht ''name'' = Some (JStr hname)"
  shows "\<exists>g. goal = JObj g
    \<and> (map_of g ''team'' = None \<or> (\<exists>t. map_of g ''team'' = Some (JObj t)))
    \<and> (\<forall>nm. goal_names g nm \<longrightarrow> r ! 2 = JInt (if nm = JStr hname then h else a))"
proof -
  from goal_row_cells[OF assms(1)] obtain scorer_team home_name where
    t: "goal_team_name goal = Inr scorer_team"
    and hn: "subscr_path (JObj m) [''homeTeam'', ''name''] = Inr home_name"
    and r: "r ! 2 = JInt (if py_eq scorer_team home_name then h else a)"
    by auto
  have "home_name = JStr hname" using hn assms(2,3) by (simp add: and_then_def)
  then have "r ! 2 = JInt (if scorer_team = JStr hname then h else a)"
    using r by (simp add: py_eq_JStr)
  then show ?thesis using goal_team_name_reads[OF t] by auto
qed

lemma resolve_team_stored:
  assumes "resolve_team (JObj m) k st = (Inr team_id, st1)"
    and "map_of m k = Some (JObj tm)" and "map_of tm ''name'' = Some (JStr name)"
  shows "\<exists>t ext. map_of (teams_dict st1) (KStr name) = Some t \<and> t_id t = team_id
    \<and> teams_dict st1 = teams_dict st @ ext"
proof -
  from assms obtain i where g: "get_or_create_team_id (JStr name) i st = Inr (team_id, st1)"
    by (auto simp: resolve_team_def and_then_def split: sum.splits option.splits)
  from get_or_create_cases[of "JStr name" i st] g show ?thesis by auto
qed

lemma map_of_extends: "map_of d k = Some t \<Longrightarrow> map_of (d @ ext) k = Some t"
  by (simp add: map_add_Some_iff)

lemma match_goals_array:
  "map_of m ''goals'' = Some (JArr goals) \<Longrightarrow> match_goals (JObj m) = Inr goals"
  by (cases goals) (auto simp: match_goals_def and_then_def dest!: map_of_SomeD intro: rev_image_eqI)

lemma match_step_attributed:
  assumes "match_step match st goal_id matches_data goals_data
             = (Inr (goal_id', matches_data', goals_data'), st')"
  shows "\<exists>rows ext. goals_data' = goals_data @ rows \<and> goals_attributed st' match rows
    \<and> teams_dict st' = teams_dict st @ ext"
proof -
  from match_step_parts[OF assms] obtain h a st1 match_id r gs where
    rh: "resolve_team match ''homeTeam'' st = (Inr h, st1)"
    and ra: "resolve_team match ''awayTeam'' st1 = (Inr a, st')"
    and g: "match_goals match = Inr gs"
    and gl: "goals_loop match match_id h a gs goal_id goals_data = Inr (goal_id', goals_data')"
    by blast
  from goals_loop_rows[OF gl] obtain rows where
    gd: "goals_data' = goals_data @ rows"
    and rows: "list_all2 (\<lambda>goal r. \<exists>i. goal_row match match_id h a goal i = Inr r) gs rows"
    by blast
  obtain c1 where "st1 = snd (resolve_all c1 st)"
    using resolve_team_calls[of match "''homeTeam''" st] rh by auto
  then obtain e1 where e1: "teams_dict st1 = teams_dict st @ e1"
    using resolve_all_extends[of c1 st] by auto
  obtain c2 where "st' = snd (resolve_all c2 st1)"
    using resolve_team_calls[of match "''awayTeam''" st1] ra by auto
  then obtain e2 where e2: "teams_dict st' = teams_dict st1 @ e2"
    using resolve_all_extends[of c2 st1] by auto
  have "goals_attributed st' match rows"
    unfolding goals_attributed_def
  proof (intro allI impI, elim conjE)
    fix m ht hname at aname goals
    assume m: "match = JObj m"
      and ht: "map_of m ''homeTeam'' = Some (JObj ht)" "map_of ht ''name'' = Some (JStr hname)"
      and at: "map_of m ''awayTeam'' = Some (JObj at)" "map_of at ''name'' = Some (JStr aname)"
      and goals: "map_of m ''goals'' = Some (JArr goals)"
    from resolve_team_stored[OF rh[unfolded m] ht] obtain th where
      "map_of (teams_dict st1) (KStr hname) = Some th" and th: "t_id th = h" by blast
    then have th': "map_of (teams_dict st') (KStr hname) = Some th"
      using e2 by (simp add: map_of_extends)
    from resolve_team_stored[OF ra[unfolded m] at] obtain ta where
      ta': "map_of (teams_dict st') (KStr aname) = Some ta" and ta: "t_id ta = a" by blast
    have gs: "gs = goals" using g m match_goals_array[OF goals] by simp
    have len: "length rows = length goals" using rows gs by (auto dest: list_all2_lengthD)
    have "\<forall>i<length goals. \<exists>g.
              goals ! i = JObj g \<and>
              (map_of g ''team'' = None \<or> (\<exists>t. map_of g ''team'' = Some (JObj t))) \<and>
              (\<forall>nm. goal_names g nm \<longrightarrow>
                 rows ! i ! 2 = JInt (if nm = JStr hname then t_id th else t_id ta))"
    proof (intro allI impI)
      fix i assume i: "i < length goals"
      then obtain j where "goal_row (JObj m) match_id h a (goals ! i) j = Inr (rows ! i)"
        using rows gs m by (auto simp: list_all2_conv_all_nth)
      from goal_row_attributed[OF this ht, unfolded th[symmetric] ta[symmetric]]
      show "\<exists>g. goals ! i = JObj g \<and>
              (map_of g ''team'' = None \<or> (\<exists>t. map_of g ''team'' = Some (JObj t))) \<and>
              (\<forall>nm. goal_names g nm \<longrightarrow>
                 rows ! i ! 2 = JInt (if nm = JStr hname then t_id th else t_id ta))" .
    qed
    then show "\<exists>th ta.
           map_of (teams_dict st') (KStr hname) = Some th \<and>
           map_of (teams_dict st') (KStr aname) = Some ta \<and>
           length rows = length goals \<and>
           (\<forall>i<length goals. \<exists>g.
              goals ! i = JObj g \<and>
              (map_of g ''team'' = None \<or> (\<exists>t. map_of g ''team'' = Some (JObj t))) \<and>
              (\<forall>nm. goal_names g nm \<longrightarrow>
                 rows ! i ! 2 = JInt (if nm = JStr hname then t_id th else t_id ta)))"
      using th' ta' len by blast
  qed
  then show ?thesis using gd e1 e2 by auto
qed

lemma goals_attributed_extends:
  assumes "goals_attributed st match rows" and "teams_dict st' = teams_dict st @ ext"
  shows "goals_attributed st' match rows"
  unfolding goals_attributed_def
proof (intro allI impI)
  fix m ht hname at aname goals
  assume p: "match = JObj m \<and>
        map_of m ''homeTeam'' = Some (JObj ht) \<and> map_of ht ''name'' = Some (JStr hname) \<and>
        map_of m ''awayTeam'' = Some (JObj at) \<and> map_of at ''name'' = Some (JStr aname) \<and>
        map_of m ''goals'' = Some (JArr goals)"
  from assms(1)[unfolded goals_attributed_def, rule_format, OF p] obtain th ta where
    a: "map_of (teams_dict st) (KStr hname) = Some th"
       "map_of (teams_dict st) (KStr aname) = Some ta"
    and b: "length rows = length goals \<and>
           (\<forall>i<length goals. \<exists>g.
              goals ! i = JObj g \<and>
              (map_of g ''team'' = None \<or> (\<exists>t. map_of g ''team'' = Some (JObj t))) \<and>
              (\<forall>nm. goal_names g nm \<longrightarrow>
                 rows ! i ! 2 = JInt (if nm = JStr hname then t_id th else t_id ta)))"
    by blast
  have "map_of (teams_dict st') (KStr hname) = Some th"
       "map_of (teams_dict st') (KStr aname) = Some ta"
    using a assms(2) by (simp_all add: map_of_extends)
  then show "\<exists>th ta.
           map_of (teams_dict st') (KStr hname) = Some th \<and>
           map_of (teams_dict st') (KStr aname) = Some ta \<and>
           length rows = length goals \<and>
           (\<forall>i<length goals. \<exists>g.
              goals ! i = JObj g \<and>
              (map_of g ''team'' = None \<or> (\<exists>t. map_of g ''team'' = Some (JObj t))) \<and>
              (\<forall>nm. goal_names g nm \<longrightarrow>
                 rows ! i ! 2 = JInt (if nm = JStr hname then t_id th else t_id ta)))"
    using b by blast
qed

lemma matches_loop_attributed:
  assumes "matches_loop matches st goal_id matches_data goals_data
             = (Inr (goal_id', matches_data', goals_data'), st')"
  shows "\<exists>rowss. goals_data' = goals_data @ concat rowss
    \<and> list_all2 (goals_attributed st') matches rowss"
  using assms
proof (induction matches arbitrary: st goal_id matches_data goals_data)
  case Nil
  then show ?case by simp
next
  case (Cons match matches)
  from Cons.prems obtain g1 md1 gd1 st1 where
    s: "match_step match st goal_id matches_data goals_data = (Inr (g1, md1, gd1), st1)"
    and l: "matches_loop matches st1 g1 md1 gd1 = (Inr (goal_id', matches_data', goals_data'), st')"
    by (auto split: sum.splits prod.splits)
  from match_step_attributed[OF s] obtain rows where
    gd1: "gd1 = goals_data @ rows" and a1: "goals_attributed st1 match rows"
    by blast
  from Cons.IH[OF l] obtain rowss where
    gd': "goals_data' = gd1 @ concat rowss"
    and as: "list_all2 (goals_attributed st') matches rowss"
    by blast
  obtain c where "st' = snd (resolve_all c st1)"
    using matches_loop_calls[of matches st1 g1 md1 gd1] l by auto
  then obtain ext where "teams_dict st' = teams_dict st1 @ ext"
    using resolve_all_extends[of c st1] by auto
  from goals_attributed_extends[OF a1 this] have "goals_attributed st' match rows" .
  then have "list_all2 (goals_attributed st') (match # matches) (rows # rowss)"
    using as by simp
  moreover have "goals_data' = goals_data @ concat (rows # rowss)"
    using gd' gd1 by simp
  ultimately show ?case by blast
qed

lemma index_of_inj:
  "x \<in> set xs \<Longrightarrow> y \<in> set xs \<Longrightarrow> index_of x xs = index_of y xs \<Longrightarrow> x = y"
  by (induction xs) (auto split: if_splits)

lemma reachable_ids_inj:
  assumes "st = snd (resolve_all calls initial_registry)"
    and "map_of (teams_dict st) k1 = Some t1" and "map_of (teams_dict st) k2 = Some t2"
    and "t_id t1 = t_id t2"
  shows "k1 = k2"
proof -
  let ?fc = "first_calls calls"
  have d: "teams_dict st = map new_team (enumerate 0 ?fc)"
    using assms(1) by (simp add: resolve_all_initial)
  have i1: "t_id t1 = int (index_of k1 (map fst ?fc)) + 1"
    using map_of_new_team[of 0 ?fc k1 t1] assms(2) d by simp
  have i2: "t_id t2 = int (index_of k2 (map fst ?fc)) + 1"
    using map_of_new_team[of 0 ?fc k2 t2] assms(3) d by simp
  have "k1 \<in> fst ` set (teams_dict st)" "k2 \<in> fst ` set (teams_dict st)"
    using assms(2,3) by (auto dest!: map_of_SomeD intro: rev_image_eqI)
  then have "k1 \<in> set (map fst ?fc)" "k2 \<in> set (map fst ?fc)"
    using new_team_keys[of 0 ?fc] d by (metis image_set)+
  then show ?thesis using index_of_inj[of k1 "map fst ?fc" k2] i1 i2 assms(4) by simp
qed

lemma goals_attributed_reachable:
  assumes a: "goals_attributed st match rows"
    and r: "st = snd (resolve_all calls initial_registry)"
    and p: "match = JObj m \<and>
        map_of m ''homeTeam'' = Some (JObj ht) \<and> map_of ht ''name'' = Some (JStr hname) \<and>
        map_of m ''awayTeam'' = Some (JObj at) \<and> map_of at ''name'' = Some (JStr aname) \<and>
        map_of m ''goals'' = Some (JArr goals)"
  shows "\<exists>th ta.
      map_of (teams_dict st) (KStr hname) = Some th
    \<and> map_of (teams_dict st) (KStr aname) = Some ta
    \<and> (hname \<noteq> aname \<longrightarrow> t_id th \<noteq> t_id ta)
    \<and> length rows = length goals
    \<and> (\<forall>i<length goals. \<exists>g.
          goals ! i = JObj g
        \<and> (map_of g ''team'' = None \<or> (\<exists>t. map_of g ''team'' = Some (JObj t)))
        \<and> (\<forall>nm.
              (\<exists>t. map_of g ''team'' = Some (JObj t) \<and> map_of t ''name'' = Some nm) \<or>
              (nm = JStr [] \<and>
               (map_of g ''team'' = None \<or>
                (\<exists>t. map_of g ''team'' = Some (JObj t) \<and> map_of t ''name'' = None)))
              \<longrightarrow>
                rows ! i ! 2 = JInt (if nm = JStr hname then t_id th else t_id ta)
              \<and> (hname \<noteq> aname \<longrightarrow>
                   (rows ! i ! 2 = JInt (t_id th) \<longleftrightarrow> nm = JStr hname))))"
proof -
  from a[unfolded goals_attributed_def, rule_format, OF p] obtain th ta where
    th: "map_of (teams_dict st) (KStr hname) = Some th"
    and ta: "map_of (teams_dict st) (KStr aname) = Some ta"
    and len: "length rows = length goals"
    and g: "\<forall>i<length goals. \<exists>g.
              goals ! i = JObj g \<and>
              (map_of g ''team'' = None \<or> (\<exists>t. map_of g ''team'' = Some (JObj t))) \<and>
              (\<forall>nm. goal_names g nm \<longrightarrow>
                 rows ! i ! 2 = JInt (if nm = JStr hname then t_id th else t_id ta))"
    by blast
  have d: "hname \<noteq> aname \<longrightarrow> t_id th \<noteq> t_id ta"
    using reachable_ids_inj[OF r th ta] by auto
  have "\<forall>i<length goals. \<exists>g.
          goals ! i = JObj g
        \<and> (map_of g ''team'' = None \<or> (\<exists>t. map_of g ''team'' = Some (JObj t)))
        \<and> (\<forall>nm. goal_names g nm \<longrightarrow>
                rows ! i ! 2 = JInt (if nm = JStr hname then t_id th else t_id ta)
              \<and> (hname \<noteq> aname \<longrightarrow>
                   (rows ! i ! 2 = JInt (t_id th) \<longleftrightarrow> nm = JStr hname)))"
  proof (intro allI impI)
    fix i assume "i < length goals"
    with g obtain gg where gg: "goals ! i = JObj gg"
      "map_of gg ''team'' = None \<or> (\<exists>t. map_of gg ''team'' = Some (JObj t))"
      "\<forall>nm. goal_names gg nm \<longrightarrow>
                 rows ! i ! 2 = JInt (if nm = JStr hname then t_id th else t_id ta)"
      by blast
    have "\<forall>nm. goal_names gg nm \<longrightarrow>
                rows ! i ! 2 = JInt (if nm = JStr hname then t_id th else t_id ta)
              \<and> (hname \<noteq> aname \<longrightarrow>
                   (rows ! i ! 2 = JInt (t_id th) \<longleftrightarrow> nm = JStr hname))"
      using gg(3) d by auto
    then show "\<exists>g.
          goals ! i = JObj g
        \<and> (map_of g ''team'' = None \<or> (\<exists>t. map_of g ''team'' = Some (JObj t)))
        \<and> (\<forall>nm. goal_names g nm \<longrightarrow>
                rows ! i ! 2 = JInt (if nm = JStr hname then t_id th else t_id ta)
              \<and> (hname \<noteq> aname \<longrightarrow>
                   (rows ! i ! 2 = JInt (t_id th) \<longleftrightarrow> nm = JStr hname)))"
      using gg(1,2) by blast
  qed
  then show ?thesis using th ta len d unfolding goal_names_def by blast
qed

lemmas attribution_defs = stage_defs example_same_name_matches_def example_null_team_matches_def

lemma example_same_name_run:
  "fetch_champions_league_matches (Inr example_same_name_matches) ''20260101_120000''
     initial_registry =
    (Inr (PTuple [PStr ''matches_20260101_120000.csv'', PStr ''goals_20260101_120000.csv'']),
     \<lparr>teams_dict =
        [(KStr ''Ajax'', \<lparr>t_id = 1, t_name = JStr ''Ajax'', t_api_id = JInt 678\<rparr>)],
      team_id_counter = 2\<rparr>,
     [(''matches_20260101_120000.csv'',
       [[JStr ''match_id'', JStr ''match_day'', JStr ''date'', JStr ''home_team_id'',
         JStr ''away_team_id'', JStr ''home_score'', JStr ''away_score'', JStr ''status''],
        [JInt 200, JInt 1, JStr ''2026-01-03'', JInt 1, JInt 1, JInt 1, JInt 0,
         JStr ''FINISHED'']]),
      (''goals_20260101_120000.csv'',
       [[JStr ''goal_id'', JStr ''match_id'', JStr ''team_id'', JStr ''scorer_name'',
         JStr ''minute'', JStr ''score''],
        [JInt 1, JInt 200, JInt 1, JStr ''Silva'', JInt 12, JObj []]])])"
  by (simp add: attribution_defs)

text \<open>
  Claim C3, as the code has it. Take a run of the matches stage that writes its files, on
  a registry reached from the initial one, with a payload whose \<^verbatim>\<open>matches\<close> entry is a
  list. The data rows of the goals file are the rows of the matches one after the other;
  for a match whose two team names are strs and whose \<^verbatim>\<open>goals\<close> entry is a list, there is
  one row for each goal of the list, in order. Every such goal is an object whose
  \<^verbatim>\<open>team\<close> entry is missing or an object, and the \<^verbatim>\<open>team_id\<close> cell of its row (index 2)
  is the id the registry holds for the home-team name when the goal's team name equals
  the home-team name, and the id it holds for the away-team name otherwise, whatever the
  away-team name is. When the two team names differ, the two ids differ, and the cell is
  the home team's id if and only if the goal's team name equals the home-team name.
\<close>

theorem goal_attribution:
  assumes "resolve_all calls initial_registry = (results, st)"
    and "fetch_champions_league_matches (Inr (JObj d)) timestamp st = (result, st', files)"
    and "files \<noteq> []"
    and "map_of d ''matches'' = Some (JArr matches)"
  shows "\<exists>matches_data rowss.
      files = [(''matches_'' @ timestamp @ ''.csv'', matches_headers # matches_data),
               (''goals_'' @ timestamp @ ''.csv'', goals_headers # concat rowss)]
    \<and> length rowss = length matches
    \<and> (\<forall>j<length matches. \<forall>m ht hname at aname goals.
          matches ! j = JObj m \<and>
          map_of m ''homeTeam'' = Some (JObj ht) \<and> map_of ht ''name'' = Some (JStr hname) \<and>
          map_of m ''awayTeam'' = Some (JObj at) \<and> map_of at ''name'' = Some (JStr aname) \<and>
          map_of m ''goals'' = Some (JArr goals) \<longrightarrow>
          (\<exists>th ta.
              map_of (teams_dict st') (KStr hname) = Some th
            \<and> map_of (teams_dict st') (KStr aname) = Some ta
            \<and> (hname \<noteq> aname \<longrightarrow> t_id th \<noteq> t_id ta)
            \<and> length (rowss ! j) = length goals
            \<and> (\<forall>i<length goals. \<exists>g.
                  goals ! i = JObj g
                \<and> (map_of g ''team'' = None \<or> (\<exists>t. map_of g ''team'' = Some (JObj t)))
                \<and> (\<forall>nm.
                      (\<exists>t. map_of g ''team'' = Some (JObj t) \<and> map_of t ''name'' = Some nm) \<or>
                      (nm = JStr [] \<and>
                       (map_of g ''team'' = None \<or>
                        (\<exists>t. map_of g ''team'' = Some (JObj t) \<and> map_of t ''name'' = None)))
                      \<longrightarrow>
                        rowss ! j ! i ! 2 = JInt (if nm = JStr hname then t_id th else t_id ta)
                      \<and> (hname \<noteq> aname \<longrightarrow>
                           (rowss ! j ! i ! 2 = JInt (t_id th) \<longleftrightarrow> nm = JStr hname))))))"
proof -
  have k: "''matches'' \<in> fst ` set d"
    using assms(4) by (auto dest!: map_of_SomeD intro: rev_image_eqI)
  from assms(2,3) k assms(4) obtain g md gd where
    l: "matches_loop matches st 1 [] [] = (Inr (g, md, gd), st')"
    and fs: "files = [(''matches_'' @ timestamp @ ''.csv'', matches_headers # md),
                 (''goals_'' @ timestamp @ ''.csv'', goals_headers # gd)]"
    by (auto simp: fetch_champions_league_matches_def matches_try_def Let_def and_then_def
        except_Exception_def split: sum.splits bool.splits prod.splits)
  from matches_loop_attributed[OF l] obtain rowss where
    gd: "gd = concat rowss" and a: "list_all2 (goals_attributed st') matches rowss"
    by auto
  obtain c where "st' = snd (resolve_all c st)"
    using matches_loop_calls[of matches st 1 "[]" "[]"] l by auto
  then have r: "st' = snd (resolve_all (calls @ c) initial_registry)"
    using assms(1) by (simp add: snd_resolve_all_append)
  have len: "length rowss = length matches" using a by (auto dest: list_all2_lengthD)
  have "\<forall>j<length matches. goals_attributed st' (matches ! j) (rowss ! j)"
    using a by (simp add: list_all2_conv_all_nth)
  then show ?thesis
    using fs gd len goals_attributed_reachable[OF _ r] by (intro exI conjI) blast+
qed

theorem goal_attribution_witness:
  "resolve_all [] initial_registry = ([], initial_registry)
   \<and> snd (snd (snd (fetch_champions_league_matches (Inr example_matches) ''20260101_120000''
         initial_registry)) ! 1)
     = [[JStr ''goal_id'', JStr ''match_id'', JStr ''team_id'', JStr ''scorer_name'',
         JStr ''minute'', JStr ''score''],
        [JInt 1, JInt 100, JInt 1, JNull, JInt 7, JObj []],
        [JInt 2, JInt 100, JInt 2, JStr ''Unknown'', JInt 80, JObj []],
        [JInt 3, JInt 100, JInt 1, JNull, JInt 7, JObj []],
        [JInt 4, JInt 100, JInt 2, JStr ''Unknown'', JInt 80, JObj []]]
   \<and> map_of (teams_dict (fst (snd (fetch_champions_league_matches (Inr example_matches)
         ''20260101_120000'' initial_registry)))) (KStr ''Ajax'')
     = Some \<lparr>t_id = 1, t_name = JStr ''Ajax'', t_api_id = JInt 678\<rparr>
   \<and> map_of (teams_dict (fst (snd (fetch_champions_league_matches (Inr example_matches)
         ''20260101_120000'' initial_registry)))) (KStr ''Porto'')
     = Some \<lparr>t_id = 2, t_name = JStr ''Porto'', t_api_id = JInt 503\<rparr>"
proof -
  have c: "resolve_all [] initial_registry = ([], initial_registry)" by simp
  have n: "[(''matches_20260101_120000.csv'', X), (''goals_20260101_120000.csv'', Y)] \<noteq> []"
    for X Y :: "row list"
    by simp
  have m: "map_of [(''matches'', JArr [example_played_match, example_timed_match,
                              example_played_match])] ''matches''
      = Some (JArr [example_played_match, example_timed_match, example_played_match])"
    by simp
  from goal_attribution[OF c example_matches_run[unfolded example_matches_def] n m]
  show ?thesis using c by (simp add: example_matches_run)
qed

text \<open>
  The claim as stated fails when the home and the away team carry the same name: both
  have the id 1, and the goal of the team \<^verbatim>\<open>Benfica\<close> carries the home team's id although
  its team name is not the home-team name.
\<close>

theorem goal_attribution_same_name_counterexample:
  "subscr_path example_same_name_matches [''matches''] = Inr (JArr
       [JObj [(''id'', JInt 200), (''utcDate'', JStr ''2026-01-03''),
             (''status'', JStr ''FINISHED''), (''matchday'', JInt 1),
             (''homeTeam'', JObj [(''id'', JInt 678), (''name'', JStr ''Ajax'')]),
             (''awayTeam'', JObj [(''id'', JInt 678), (''name'', JStr ''Ajax'')]),
             (''score'', JObj [(''fullTime'', JObj [(''home'', JInt 1), (''away'', JInt 0)])]),
             (''goals'', JArr [
                JObj [(''minute'', JInt 12), (''team'', JObj [(''name'', JStr ''Benfica'')]),
                      (''scorer'', JObj [(''name'', JStr ''Silva'')])]])]])
   \<and> map_of (teams_dict (fst (snd (fetch_champions_league_matches
         (Inr example_same_name_matches) ''20260101_120000'' initial_registry)))) (KStr ''Ajax'')
     = Some \<lparr>t_id = 1, t_name = JStr ''Ajax'', t_api_id = JInt 678\<rparr>
   \<and> snd (snd (snd (fetch_champions_league_matches (Inr example_same_name_matches)
         ''20260101_120000'' initial_registry)) ! 1) ! 1
     = [JInt 1, JInt 200, JInt 1, JStr ''Silva'', JInt 12, JObj []]
   \<and> \<not> (snd (snd (snd (fetch_champions_league_matches (Inr example_same_name_matches)
         ''20260101_120000'' initial_registry)) ! 1) ! 1 ! 2 = JInt 1
        \<longleftrightarrow> ''Benfica'' = ''Ajax'')"
  by (simp add: example_same_name_run) (simp add: example_same_name_matches_def and_then_def)

text \<open>
  A goal whose \<^verbatim>\<open>team\<close> entry is \<^verbatim>\<open>null\<close> raises \<^verbatim>\<open>AttributeError\<close> in the body of the
  \<^verbatim>\<open>try\<close> block: the stage returns \<^verbatim>\<open>(None, None)\<close> and writes no file, so no goal of
  the run is attributed.
\<close>

lemma goal_team_null_raises:
  "fst (matches_try (Inr example_null_team_matches) ''20260101_120000'' initial_registry)
     = Inl AttributeError
   \<and> fetch_champions_league_matches (Inr example_null_team_matches) ''20260101_120000''
     initial_registry =
    (Inr (PTuple [PNone, PNone]),
     \<lparr>teams_dict =
        [(KStr ''Ajax'', \<lparr>t_id = 1, t_name = JStr ''Ajax'', t_api_id = JInt 678\<rparr>),
         (KStr ''Porto'', \<lparr>t_id = 2, t_name = JStr ''Porto'', t_api_id = JInt 503\<rparr>)],
      team_id_counter = 3\<rparr>,
     [])"
  by (simp add: attribution_defs)

text \<open>
  Claim C5. A payload without a \<^verbatim>\<open>matches\<close> key, here
  \<^verbatim>\<open>{"message": "no data"}\<close>: the stage writes no file and leaves the registry as it
  was, and it returns the single value \<^verbatim>\<open>None\<close>, which is not the pair
  \<^verbatim>\<open>(None, None)\<close> that the \<^verbatim>\<open>except\<close> branch returns; the unpacking of the result in
  the main block then raises \<^verbatim>\<open>TypeError\<close>, and the main block ends with it.
\<close>

theorem matches_key_absent_returns_None:
  "fetch_champions_league_matches (Inr (JObj [(''message'', JStr ''no data'')]))
     ''20260101_120000'' initial_registry = (Inr PNone, initial_registry, [])
   \<and> PNone \<noteq> PTuple [PNone, PNone]
   \<and> fetch_champions_league_matches (Inl RequestException)
     ''20260101_120000'' initial_registry = (Inr (PTuple [PNone, PNone]), initial_registry, [])
   \<and> unpack2 PNone = Inl TypeError
   \<and> fst (main_block (Inr (JObj [(''standings'', JArr [])]), ''20260101_120000'')
                      (Inr (JObj [(''message'', JStr ''no data'')]), ''20260101_120001'')
                      (Inr (JObj [(''scorers'', JArr [])]), ''20260101_120002'')
                      ''20260101_120003'' initial_registry) = Inl TypeError"
  by (simp add: main_block_def fetch_champions_league_matches_def matches_try_def
      except_Exception_def fetch_champions_league_standings_def standings_try_def and_then_def)



text \<open>
  Claim C7. When the payload has a \<^verbatim>\<open>standings\<close> entry of length 0 (an empty list),
  the standings stage returns \<^verbatim>\<open>None\<close> without raising, writes no file and leaves the
  registry as it was.
\<close>

theorem standings_empty_noop:
  assumes "subscr data ''standings'' = Inr c" and "py_len c = Inr 0"
  shows "fetch_champions_league_standings (Inr data) timestamp st = (Inr PNone, st, [])"
  using assms subscr_Inr_in[OF assms(1)]
  by (simp add: fetch_champions_league_standings_def standings_try_def and_then_def
      except_Exception_def)

theorem standings_empty_noop_witness:
  "fetch_champions_league_standings
     (Inr (JObj [(''competition'', JStr ''CL''), (''standings'', JArr [])]))
     ''20260101_120000'' initial_registry
   = (Inr PNone, initial_registry, [])"
  using standings_empty_noop[of "JObj [(''competition'', JStr ''CL''), (''standings'', JArr [])]"
      "JArr []" "''20260101_120000''" initial_registry]
  by simp

text \<open>
  Claim C9, as the code has it, for the row that \<open>goal_row\<close> builds for a goal (every
  data row of the goals file is such a row, see \<open>matches_files_rows\<close>). Let \<open>c\<close> be
  \<^verbatim>\<open>goal.get('scorer')\<close>. When \<open>c\<close> is falsy
  (the key is missing, or its value is \<^verbatim>\<open>null\<close>, an empty object or another falsy value),
  or when \<open>c\<close> is an object without a \<^verbatim>\<open>name\<close> key, the \<^verbatim>\<open>scorer_name\<close> cell of the
  goal's row (index 3) is the str \<^verbatim>\<open>Unknown\<close>.
\<close>

theorem scorer_name_unknown:
  assumes "goal_row match match_id home_team_id away_team_id goal goal_id = Inr r"
    and "py_get goal ''scorer'' JNull = Inr c"
    and "\<not> truthy c \<or> (\<exists>kvs. c = JObj kvs \<and> ''name'' \<notin> fst ` set kvs)"
  shows "r ! 3 = JStr ''Unknown''"
proof -
  from goal_row_cells[OF assms(1)] obtain scorer where
    s: "scorer_name goal = Inr scorer" and r: "r ! 3 = scorer"
    by auto
  from assms(2) obtain gkvs where goal: "goal = JObj gkvs" by (cases goal) simp_all
  have c': "py_get goal ''scorer'' (JObj []) = Inr c \<or> \<not> truthy c"
    using assms(2) goal by (auto split: option.splits)
  have "scorer = JStr ''Unknown''"
  proof (cases "truthy c")
    case False
    then show ?thesis using s assms(2) by (simp add: scorer_name_def and_then_def)
  next
    case True
    then obtain kvs where k: "c = JObj kvs" "''name'' \<notin> fst ` set kvs" using assms(3) by blast
    then have "map_of kvs ''name'' = None" by (simp add: map_of_eq_None_iff)
    then show ?thesis using s assms(2) True c' k
      by (auto simp: scorer_name_def and_then_def)
  qed
  then show ?thesis using r by simp
qed

theorem scorer_name_unknown_witness:
  "goal_row example_played_match (JInt 100) 1 2
     (JObj [(''minute'', JInt 80), (''team'', JObj [(''name'', JStr ''FC Porto'')]),
            (''scorer'', JNull)]) 2
   = Inr [JInt 2, JInt 100, JInt 2, JStr ''Unknown'', JInt 80, JObj []]
   \<and> goal_row example_played_match (JInt 100) 1 2
     (JObj [(''minute'', JInt 80), (''scorer'', JObj [(''id'', JInt 9)])]) 2
   = Inr [JInt 2, JInt 100, JInt 2, JStr ''Unknown'', JInt 80, JObj []]"
proof -
  let ?g1 = "JObj [(''minute'', JInt 80), (''team'', JObj [(''name'', JStr ''FC Porto'')]),
            (''scorer'', JNull)]"
  let ?g2 = "JObj [(''minute'', JInt 80), (''scorer'', JObj [(''id'', JInt 9)])]"
  have r1: "goal_row example_played_match (JInt 100) 1 2 ?g1 2
     = Inr [JInt 2, JInt 100, JInt 2, JStr ''Unknown'', JInt 80, JObj []]"
    by (simp add: stage_defs)
  have r2: "goal_row example_played_match (JInt 100) 1 2 ?g2 2
     = Inr [JInt 2, JInt 100, JInt 2, JStr ''Unknown'', JInt 80, JObj []]"
    by (simp add: stage_defs)
  have "[JInt 2, JInt 100, JInt 2, JStr ''Unknown'', JInt 80, JObj []] ! 3 = JStr ''Unknown''"
    using scorer_name_unknown[OF r1, of JNull] scorer_name_unknown[OF r2, of "JObj [(''id'', JInt 9)]"]
    by simp
  then show ?thesis using r1 r2 by simp
qed

text \<open>
  The claim as stated fails for a scorer object whose name is \<^verbatim>\<open>null\<close>: the first goal of
  the example payload has \<^verbatim>\<open>"scorer": {"id": 9, "name": null}\<close>, and the
  \<^verbatim>\<open>scorer_name\<close> cell of its row in the goals file is \<^verbatim>\<open>None\<close>.
\<close>

theorem scorer_name_null_counterexample:
  "subscr_path example_played_match [''goals''] = Inr (JArr
     [JObj [(''minute'', JInt 7), (''team'', JObj [(''name'', JStr ''Ajax'')]),
            (''scorer'', JObj [(''id'', JInt 9), (''name'', JNull)])],
      JObj [(''minute'', JInt 80), (''team'', JObj [(''name'', JStr ''FC Porto'')]),
            (''scorer'', JNull)]])
   \<and> snd (snd (snd (fetch_champions_league_matches (Inr example_matches)
       ''20260101_120000'' initial_registry)) ! 1) ! 1
     = [JInt 1, JInt 100, JInt 1, JNull, JInt 7, JObj []]
   \<and> snd (snd (snd (fetch_champions_league_matches (Inr example_matches)
       ''20260101_120000'' initial_registry)) ! 1) ! 1 ! 3 \<noteq> JStr ''Unknown''"
  by (simp add: example_matches_run) (simp add: example_played_match_def and_then_def)

text \<open>
  Claim C10, as the code has it, for the row that \<open>match_row\<close> builds for a match
  (the data rows of the matches file are these rows, see \<open>matches_files_rows\<close>). When the
  match has no \<^verbatim>\<open>matchday\<close> key, the
  \<^verbatim>\<open>match_day\<close> cell of its row (index 1) is the str \<^verbatim>\<open>N/A\<close>; a score that is \<^verbatim>\<open>null\<close>
  is written as the empty str (cells 5 and 6).
\<close>

theorem matchday_default:
  assumes "match_row match home_team_id away_team_id = Inr (match_id, r)"
  shows "(py_in ''matchday'' match = Inr False \<longrightarrow> r ! 1 = JStr ''N/A'')
    \<and> (subscr_path match [''score'', ''fullTime'', ''home''] = Inr JNull \<longrightarrow> r ! 5 = JStr [])
    \<and> (subscr_path match [''score'', ''fullTime'', ''away''] = Inr JNull \<longrightarrow> r ! 6 = JStr [])"
proof -
  from assms obtain kvs where m: "match = JObj kvs"
    by (cases match) (simp_all add: match_row_def and_then_def)
  have "py_in ''matchday'' match = Inr False \<Longrightarrow>
        py_get match ''matchday'' (JStr ''N/A'') = Inr (JStr ''N/A'')"
    using m by (auto simp: map_of_eq_None_iff[THEN iffD2] split: option.splits)
  then show ?thesis using assms
    by (auto simp: match_row_def and_then_eq_Inr simp del: subscr_path.simps)
qed

theorem matchday_default_witness:
  "match_row example_timed_match 2 3 =
     Inr (JInt 101, [JInt 101, JStr ''N/A'', JStr ''2026-01-02'', JInt 2, JInt 3, JStr [],
                     JStr [], JStr ''TIMED''])
   \<and> py_in ''matchday'' example_timed_match = Inr False
   \<and> subscr_path example_timed_match [''score'', ''fullTime'', ''home''] = Inr JNull
   \<and> subscr_path example_timed_match [''score'', ''fullTime'', ''away''] = Inr JNull"
proof -
  have r: "match_row example_timed_match 2 3 =
     Inr (JInt 101, [JInt 101, JStr ''N/A'', JStr ''2026-01-02'', JInt 2, JInt 3, JStr [],
                     JStr [], JStr ''TIMED''])"
    by (simp add: stage_defs)
  have p: "py_in ''matchday'' example_timed_match = Inr False
   \<and> subscr_path example_timed_match [''score'', ''fullTime'', ''home''] = Inr JNull
   \<and> subscr_path example_timed_match [''score'', ''fullTime'', ''away''] = Inr JNull"
    by (simp add: example_timed_match_def and_then_def)
  from matchday_default[OF r] show ?thesis using r p by simp
qed

text \<open>
  The claim as stated fails for a match whose \<^verbatim>\<open>matchday\<close> is \<^verbatim>\<open>null\<close>: the first match
  of the example payload has \<^verbatim>\<open>"matchday": null\<close>, and the \<^verbatim>\<open>match_day\<close> cell of its row
  in the matches file is \<^verbatim>\<open>None\<close>, which is written like a missing score, as an empty
  field.
\<close>

theorem matchday_null_counterexample:
  "subscr example_played_match ''matchday'' = Inr JNull
   \<and> snd (snd (snd (fetch_champions_league_matches (Inr example_matches)
       ''20260101_120000'' initial_registry)) ! 0) ! 1
     = [JInt 100, JNull, JStr ''2026-01-01'', JInt 1, JInt 2, JInt 1, JInt 1, JStr ''FINISHED'']
   \<and> snd (snd (snd (fetch_champions_league_matches (Inr example_matches)
       ''20260101_120000'' initial_registry)) ! 0) ! 1 ! 1 \<noteq> JStr ''N/A''"
  by (simp add: example_matches_run) (simp add: example_played_match_def)

end
